theory Spec2Isabelle
  imports Main "HOL-Library.AList" "HOL-Library.Sublist"
begin

section \<open>JavaScript values\<close>

text \<open>
  The border hook (\<^verbatim>\<open>packages/block-editor/src/hooks/border.js\<close>) works on
  dynamically typed values: block attributes, style objects and the colour palettes are
  plain object literals. A value is one of JavaScript's primitives, an array, or an
  object. \<^term>\<open>JObj kvs\<close> is a plain object, one whose prototype is
  \<^verbatim>\<open>Object.prototype\<close>, kept as the list \<open>kvs\<close> of its own enumerable properties in
  the order in which JavaScript lists them (a key occurs once in the list of a real
  object). \<^term>\<open>JProto inherited kvs\<close> is such an object after an assignment to its
  \<^verbatim>\<open>__proto__\<close> has replaced its prototype by a plain object with the properties
  \<open>inherited\<close>; the one assignment of the code that can do this is in
  \<^verbatim>\<open>getBorderObject\<close>.

  The names that the code spells out are \<^verbatim>\<open>colors\<close>, \<^verbatim>\<open>slug\<close>,
  \<^verbatim>\<open>color\<close>, \<^verbatim>\<open>border\<close>, \<^verbatim>\<open>radius\<close>, \<^verbatim>\<open>style\<close>,
  \<^verbatim>\<open>borderColor\<close>, \<^verbatim>\<open>sideBorderColors\<close> and the four side names, none of
  which \<^verbatim>\<open>Object.prototype\<close>, a string, a number, a boolean or an array has; the
  one name it computes is the side in \<^verbatim>\<open>getBorderObject\<close>, treated there.
\<close>

datatype jsval =
    JUndefined
  | JNull
  | JBool bool
  | JNum int
  | JStr string
  | JArr "jsval list"
  | JObj "(string \<times> jsval) list"
  | JProto "(string \<times> jsval) list" "(string \<times> jsval) list"

text \<open>The only failure the code can raise: reading a property of \<^verbatim>\<open>undefined\<close> or
  \<^verbatim>\<open>null\<close>, or calling \<^verbatim>\<open>some\<close> on a value that is not an array.\<close>

datatype error = TypeError

text \<open>Truthiness, as \<^verbatim>\<open>if ( x )\<close>, \<^verbatim>\<open>!! x\<close> and \<^verbatim>\<open>x ? a : b\<close> test it.\<close>

fun truthy :: "jsval \<Rightarrow> bool" where
  "truthy JUndefined = False"
| "truthy JNull = False"
| "truthy (JBool b) = b"
| "truthy (JNum n) = (n \<noteq> 0)"
| "truthy (JStr s) = (s \<noteq> [])"
| "truthy (JArr xs) = True"
| "truthy (JObj kvs) = True"
| "truthy (JProto inherited kvs) = True"

text \<open>\<^verbatim>\<open>a || b\<close> yields the first operand when it is truthy, the second otherwise.\<close>

definition js_or :: "jsval \<Rightarrow> jsval \<Rightarrow> jsval" where
  "js_or a b = (if truthy a then a else b)"

text \<open>
  Strict equality \<^verbatim>\<open>===\<close>. Primitives compare by value. Objects and arrays compare
  by reference; the operands compared in this file come from separately built values (a
  palette entry's field against an attribute), so two objects are never the same
  reference and compare unequal.
\<close>

fun strict_eq :: "jsval \<Rightarrow> jsval \<Rightarrow> bool" where
  "strict_eq JUndefined JUndefined = True"
| "strict_eq JNull JNull = True"
| "strict_eq (JBool a) (JBool b) = (a = b)"
| "strict_eq (JNum a) (JNum b) = (a = b)"
| "strict_eq (JStr a) (JStr b) = (a = b)"
| "strict_eq _ _ = False"

definition nullish :: "jsval \<Rightarrow> bool" where
  "nullish v = (v = JUndefined \<or> v = JNull)"

text \<open>
  The value of the property \<open>k\<close> of \<open>v\<close>, for the names that the code spells out:
  the own property, or else the one of a prototype that replaced the original one,
  \<^verbatim>\<open>undefined\<close> when there is none. This is also optional chaining \<^verbatim>\<open>v?.k\<close>,
  which yields \<^verbatim>\<open>undefined\<close> on a nullish \<open>v\<close>.
\<close>

fun own :: "jsval \<Rightarrow> string \<Rightarrow> jsval" where
  "own (JObj kvs) k = (case map_of kvs k of None \<Rightarrow> JUndefined | Some v \<Rightarrow> v)"
| "own (JProto inherited kvs) k =
     (case map_of kvs k of
        None \<Rightarrow> (case map_of inherited k of None \<Rightarrow> JUndefined | Some v \<Rightarrow> v)
      | Some v \<Rightarrow> v)"
| "own _ k = JUndefined"

text \<open>Plain property access \<^verbatim>\<open>v.k\<close>, \<^verbatim>\<open>v[ k ]\<close> and destructuring
  \<^verbatim>\<open>const { k } = v\<close>: a TypeError on \<^verbatim>\<open>undefined\<close> and \<^verbatim>\<open>null\<close>.\<close>

definition get :: "jsval \<Rightarrow> string \<Rightarrow> error + jsval" where
  "get v k = (if nullish v then Inl TypeError else Inr (own v k))"

text \<open>Sequencing of computations that may throw.\<close>

definition bind_r :: "error + 'a \<Rightarrow> ('a \<Rightarrow> error + 'b) \<Rightarrow> error + 'b" where
  "bind_r m f = (case m of Inl e \<Rightarrow> Inl e | Inr x \<Rightarrow> f x)"

text \<open>\<^verbatim>\<open>xs.forEach\<close> (and \<^verbatim>\<open>reduce\<close>) with the mutated variables as an accumulator;
  an exception in the callback ends the loop.\<close>

fun forEach_r :: "('s \<Rightarrow> 'a \<Rightarrow> error + 's) \<Rightarrow> 'a list \<Rightarrow> 's \<Rightarrow> error + 's" where
  "forEach_r f [] s = Inr s"
| "forEach_r f (x # xs) s = (case f s x of Inl e \<Rightarrow> Inl e | Inr s' \<Rightarrow> forEach_r f xs s')"

text \<open>Decimal numerals, for the index keys of strings and arrays and for template
  literals: the digits of a number, the most significant first.\<close>

definition digit_char :: "nat \<Rightarrow> char" where
  "digit_char d = char_of (d + 48)"

function decimal :: "nat \<Rightarrow> string" where
  "decimal n =
     (if 10 \<le> n then decimal (n div 10) @ [digit_char (n mod 10)] else [digit_char n])"
  by pat_completeness auto
termination
  by (relation "measure id") auto

declare decimal.simps [simp del]

text \<open>
  The own enumerable properties an object spread \<^verbatim>\<open>{ ...v }\<close> copies and
  \<^verbatim>\<open>Object.entries( v )\<close> lists: those of an object; the indexed elements of an array
  and the indexed characters of a string; none for the other primitives (the spread also
  accepts \<^verbatim>\<open>undefined\<close> and \<^verbatim>\<open>null\<close>).
\<close>

fun spread :: "jsval \<Rightarrow> (string \<times> jsval) list" where
  "spread (JObj kvs) = kvs"
| "spread (JProto inherited kvs) = kvs"
| "spread (JArr xs) = zip (map decimal [0..<length xs]) xs"
| "spread (JStr s) = zip (map decimal [0..<length s]) (map (\<lambda>c. JStr [c]) s)"
| "spread _ = []"

text \<open>
  The order of the keys of an object: first its array indices, the decimal numerals of
  the numbers from 0 to 4294967294, in ascending order, then its other keys in the
  order in which they were created. \<^term>\<open>create_property k v kvs\<close> adds a property
  that the object does not have yet.
\<close>

definition is_digit :: "char \<Rightarrow> bool" where
  "is_digit c = (c \<in> set ''0123456789'')"

definition numeral_val :: "string \<Rightarrow> nat" where
  "numeral_val s = foldl (\<lambda>n c. 10 * n + (of_char c - 48)) 0 s"

definition array_index :: "string \<Rightarrow> bool" where
  "array_index k =
     (k \<noteq> [] \<and> list_all is_digit k \<and> (k = ''0'' \<or> hd k \<noteq> CHR ''0'') \<and>
      numeral_val k < 4294967295)"

definition create_property :: "string \<Rightarrow> jsval \<Rightarrow> (string \<times> jsval) list \<Rightarrow> (string \<times> jsval) list" where
  "create_property k v kvs =
     (if array_index k
      then takeWhile (\<lambda>p. array_index (fst p) \<and> numeral_val (fst p) < numeral_val k) kvs @
           (k, v) #
           dropWhile (\<lambda>p. array_index (fst p) \<and> numeral_val (fst p) < numeral_val k) kvs
      else kvs @ [(k, v)])"

text \<open>
  A property \<^verbatim>\<open>k: v\<close> of an object literal, after the properties \<open>kvs\<close> that the
  literal has so far: the value of an existing property is replaced in place, a new
  property is created. For a key that is not an array index this is
  \<^const>\<open>AList.update\<close>, which the definitions below use for the keys that the code
  spells out and for the class names, which begin with \<^verbatim>\<open>has-\<close> or are
  \<^verbatim>\<open>undefined\<close>.
\<close>

definition define_property :: "string \<Rightarrow> jsval \<Rightarrow> (string \<times> jsval) list \<Rightarrow> (string \<times> jsval) list" where
  "define_property k v kvs =
     (if map_of kvs k = None then create_property k v kvs else AList.update k v kvs)"

text \<open>
  Whether an object has a property \<open>k\<close>, its own or one of a prototype that replaced
  the original one, and the properties of such a prototype (\<^verbatim>\<open>Object.prototype\<close>
  has none that a spread copies).
\<close>

fun has_property :: "jsval \<Rightarrow> string \<Rightarrow> bool" where
  "has_property (JObj kvs) k = (k \<in> set (map fst kvs))"
| "has_property (JProto inherited kvs) k = (k \<in> set (map fst kvs) \<or> k \<in> set (map fst inherited))"
| "has_property v k = False"

fun prototype_properties :: "jsval \<Rightarrow> (string \<times> jsval) list" where
  "prototype_properties (JProto inherited kvs) = inherited"
| "prototype_properties v = []"

text \<open>
  The properties that the spread \<^verbatim>\<open>{ ...o[ k ] }\<close> copies, for a name \<open>k\<close> that
  the code computes. Where \<open>o\<close> has the property they are those of its value. Where it
  has not, \<^verbatim>\<open>o[ '__proto__' ]\<close> is the prototype of \<open>o\<close>; any other name is
  \<^verbatim>\<open>undefined\<close> or one of the functions of \<^verbatim>\<open>Object.prototype\<close>, from which a
  spread copies nothing.
\<close>

definition spread_property :: "jsval \<Rightarrow> string \<Rightarrow> (string \<times> jsval) list" where
  "spread_property v k =
     (if k = ''__proto__'' \<and> \<not> has_property v k then prototype_properties v
      else spread (own v k))"

text \<open>
  The assignment \<^verbatim>\<open>o[ k ] = { ... }\<close> of an object literal with the properties
  \<open>lit\<close> to a property of an object \<open>o\<close>. An own property is replaced in place, and
  a property that \<open>o\<close> does not own is created, with one exception: when \<open>k\<close> is
  \<^verbatim>\<open>__proto__\<close> and \<open>o\<close> has no property of that name, the assignment reaches
  the setter of \<^verbatim>\<open>Object.prototype\<close>, which makes the literal the prototype of
  \<open>o\<close> and gives \<open>o\<close> no property. (A spread \<^verbatim>\<open>{ ...x }\<close> and
  \<^verbatim>\<open>JSON.parse\<close> do create an own property of that name.)
\<close>

fun set_property :: "string \<Rightarrow> (string \<times> jsval) list \<Rightarrow> jsval \<Rightarrow> jsval" where
  "set_property k lit (JObj kvs) =
     (if k = ''__proto__'' \<and> \<not> has_property (JObj kvs) k then JProto lit kvs
      else JObj (define_property k (JObj lit) kvs))"
| "set_property k lit (JProto inherited kvs) =
     (if k = ''__proto__'' \<and> \<not> has_property (JProto inherited kvs) k then JProto lit kvs
      else JProto inherited (define_property k (JObj lit) kvs))"
| "set_property k lit v = v"

text \<open>\<^verbatim>\<open>{ ...acc, ...kvs }\<close>: the properties of \<open>kvs\<close> defined in order after those of
  \<open>acc\<close>.\<close>

definition assign :: "(string \<times> jsval) list \<Rightarrow> (string \<times> jsval) list \<Rightarrow> (string \<times> jsval) list" where
  "assign acc kvs = foldl (\<lambda>a (k, v). define_property k v a) acc kvs"

section \<open>Resolving a colour against the palette origins\<close>

text \<open>
  \<^verbatim>\<open>getColorByProperty\<close>, the inner \<^verbatim>\<open>origin.colors.some( ... )\<close>: the callback
  reads \<^verbatim>\<open>color[ property ]\<close>, stores the first entry that matches in
  \<^verbatim>\<open>matchedColor\<close> and stops. The result is \<open>Some\<close> of the stored entry when the
  callback returned \<^verbatim>\<open>true\<close>, \<open>None\<close> when the array was exhausted.
\<close>

fun some_color :: "string \<Rightarrow> jsval \<Rightarrow> jsval list \<Rightarrow> error + jsval option" where
  "some_color property v [] = Inr None"
| "some_color property v (color # rest) =
     (case get color property of
        Inl e \<Rightarrow> Inl e
      | Inr x \<Rightarrow> if strict_eq x v then Inr (Some color) else some_color property v rest)"

text \<open>\<^verbatim>\<open>x.some( ... )\<close> needs \<open>x\<close> to be an array: on \<^verbatim>\<open>undefined\<close> and
  \<^verbatim>\<open>null\<close> the property read throws, on anything else \<^verbatim>\<open>x.some\<close> is not a
  function.\<close>

fun as_array :: "jsval \<Rightarrow> error + jsval list" where
  "as_array (JArr xs) = Inr xs"
| "as_array _ = Inl TypeError"

text \<open>The outer \<^verbatim>\<open>colors.some( ( origin ) => origin.colors.some( ... ) )\<close>.\<close>

fun some_origin :: "string \<Rightarrow> jsval \<Rightarrow> jsval list \<Rightarrow> error + jsval option" where
  "some_origin property v [] = Inr None"
| "some_origin property v (origin # rest) =
     (case bind_r (bind_r (get origin ''colors'') as_array) (some_color property v) of
        Inl e \<Rightarrow> Inl e
      | Inr (Some c) \<Rightarrow> Inr (Some c)
      | Inr None \<Rightarrow> some_origin property v rest)"

definition getColorByProperty :: "jsval \<Rightarrow> string \<Rightarrow> jsval \<Rightarrow> error + jsval" where
  "getColorByProperty colors property v =
     bind_r (bind_r (as_array colors) (some_origin property v))
       (\<lambda>matchedColor. Inr (case matchedColor of None \<Rightarrow> JUndefined | Some c \<Rightarrow> c))"

text \<open>\<^verbatim>\<open>getMultiOriginColor( { colors, namedColor, customColor } )\<close>; a field the caller
  leaves out of the argument is \<^const>\<open>JUndefined\<close>.\<close>

definition getMultiOriginColor :: "jsval \<Rightarrow> jsval \<Rightarrow> jsval \<Rightarrow> error + jsval" where
  "getMultiOriginColor colors namedColor customColor =
     (let by_custom =
        (if \<not> truthy customColor then Inr (JObj [(''color'', JUndefined)])
         else bind_r (getColorByProperty colors ''color'' customColor)
                (\<lambda>colorObject. Inr (if truthy colorObject then colorObject
                                     else JObj [(''color'', customColor)])))
      in if truthy namedColor
         then bind_r (getColorByProperty colors ''slug'' namedColor)
                (\<lambda>colorObject. if truthy colorObject then Inr colorObject else by_custom)
         else by_custom)"

section \<open>Hydrating the stored border\<close>

text \<open>
  \<^verbatim>\<open>getBorderObject\<close>, the callback of
  \<^verbatim>\<open>Object.entries( sideBorderColors ).forEach( ( [ side, namedColor ] ) => ... )\<close>.
  The accumulator is \<^verbatim>\<open>hydratedBorderStyles\<close>, and the side is the one property
  name that the code computes.
\<close>

definition hydrate_side :: "jsval \<Rightarrow> jsval \<Rightarrow> string \<times> jsval \<Rightarrow> error + jsval" where
  "hydrate_side colors hydratedBorderStyles entry =
     (case entry of (side, namedColor) \<Rightarrow>
        bind_r (getMultiOriginColor colors namedColor JUndefined) (\<lambda>colorObject.
        bind_r (get colorObject ''color'') (\<lambda>color.
          Inr (if truthy color
               then set_property side
                      (AList.update ''color'' color (spread_property hydratedBorderStyles side))
                      hydratedBorderStyles
               else hydratedBorderStyles))))"

definition getBorderObject :: "jsval \<Rightarrow> jsval \<Rightarrow> error + jsval" where
  "getBorderObject attributes colors =
     bind_r (get attributes ''borderColor'') (\<lambda>borderColor.
     bind_r (get attributes ''sideBorderColors'') (\<lambda>sideBorderColors.
     bind_r (get attributes ''style'') (\<lambda>style.
     bind_r (get (js_or style (JObj [])) ''border'') (\<lambda>borderStyles.
       if truthy borderColor then
         bind_r (getMultiOriginColor colors borderColor JUndefined) (\<lambda>colorObject.
         bind_r (get colorObject ''color'') (\<lambda>color.
           Inr (if truthy color
                then JObj (AList.update ''color'' color (spread borderStyles))
                else borderStyles)))
       else if truthy sideBorderColors then
         forEach_r (hydrate_side colors) (spread sideBorderColors) (JObj (spread borderStyles))
       else Inr borderStyles))))"

section \<open>Normalising a style object\<close>

text \<open>
  Modelled from the spec: \<^verbatim>\<open>cleanEmptyObject\<close> is imported from
  \<^verbatim>\<open>./utils\<close>, a file of the repository that is not among the sources. The spec
  says that the style object ``is normalized by recursively dropping empty/undefined leaf
  values'', so that it ``contains no key whose value is an empty object or undefined,
  recursively'': every property is cleaned first and dropped when what is left of it is
  \<^verbatim>\<open>undefined\<close> or the empty object; values that are not objects are kept as they
  are.
\<close>

fun cleanEmptyObject :: "jsval \<Rightarrow> jsval"
  and clean_props :: "(string \<times> jsval) list \<Rightarrow> (string \<times> jsval) list" where
  "cleanEmptyObject (JObj kvs) = JObj (clean_props kvs)"
| "cleanEmptyObject (JProto inherited kvs) = JObj (clean_props kvs)"
| "cleanEmptyObject JUndefined = JUndefined"
| "cleanEmptyObject JNull = JNull"
| "cleanEmptyObject (JBool b) = JBool b"
| "cleanEmptyObject (JNum n) = JNum n"
| "cleanEmptyObject (JStr s) = JStr s"
| "cleanEmptyObject (JArr xs) = JArr xs"
| "clean_props [] = []"
| "clean_props (p # kvs) =
     (let v = cleanEmptyObject (snd p)
      in if v = JUndefined \<or> v = JObj [] then clean_props kvs
         else (fst p, v) # clean_props kvs)"

section \<open>Storing an edited border\<close>

definition borderSides :: "string list" where
  "borderSides = [''top'', ''right'', ''bottom'', ''left'']"

text \<open>
  \<^verbatim>\<open>onBorderChange\<close>, the callback of \<^verbatim>\<open>borderSides.forEach\<close> in the split
  branch. The accumulator holds the two variables the callback mutates:
  \<^verbatim>\<open>newBorderStyles\<close>, an object literal whose four properties are themselves fresh
  object literals (kept as their property lists), and \<^verbatim>\<open>newSideBorderColors\<close>.
\<close>

definition split_side ::
  "jsval \<Rightarrow> jsval \<Rightarrow> (string \<times> (string \<times> jsval) list) list \<times> (string \<times> jsval) list \<Rightarrow> string
     \<Rightarrow> error + (string \<times> (string \<times> jsval) list) list \<times> (string \<times> jsval) list" where
  "split_side colors newBorder acc side =
     (case acc of (newBorderStyles, newSideBorderColors) \<Rightarrow>
        bind_r (get newBorder side) (\<lambda>sideBorder.
          if truthy (own sideBorder ''color'') then
            bind_r (getMultiOriginColor colors JUndefined (own sideBorder ''color'')) (\<lambda>colorObject.
            bind_r (get colorObject ''slug'') (\<lambda>slug.
              Inr (if truthy slug
                   then (AList.map_entry side (AList.update ''color'' JUndefined) newBorderStyles,
                         AList.update side slug newSideBorderColors)
                   else acc)))
          else Inr acc))"

text \<open>
  \<^verbatim>\<open>onBorderChange( newBorder )\<close> inside \<^verbatim>\<open>BorderPanel\<close>. The closure variables
  \<^verbatim>\<open>style\<close> (the block's current \<^verbatim>\<open>attributes.style\<close>) and \<^verbatim>\<open>colors\<close> are
  parameters, and so is \<^verbatim>\<open>hasSplitBorders\<close>, which the components package exports
  and the sources do not contain. The result is the object handed to
  \<^verbatim>\<open>setAttributes\<close>.
\<close>

definition onBorderChange :: "(jsval \<Rightarrow> bool) \<Rightarrow> jsval \<Rightarrow> jsval \<Rightarrow> jsval \<Rightarrow> error + jsval" where
  "onBorderChange hasSplitBorders style colors newBorder =
     bind_r
       (if hasSplitBorders newBorder then
          bind_r (get newBorder ''top'') (\<lambda>top.
          bind_r (get newBorder ''right'') (\<lambda>right.
          bind_r (get newBorder ''bottom'') (\<lambda>bottom.
          bind_r (get newBorder ''left'') (\<lambda>left.
          bind_r (forEach_r (split_side colors newBorder) borderSides
                    ([(''top'', spread top), (''right'', spread right),
                      (''bottom'', spread bottom), (''left'', spread left)], []))
            (\<lambda>(newBorderStyles, newSideBorderColors).
               Inr (map (\<lambda>(side, props). (side, JObj props)) newBorderStyles,
                    JUndefined, JObj newSideBorderColors))))))
        else if truthy (own newBorder ''color'') then
          bind_r (getMultiOriginColor colors JUndefined (own newBorder ''color'')) (\<lambda>colorObject.
          bind_r (get colorObject ''slug'') (\<lambda>slug.
            Inr (if truthy slug
                 then (AList.update ''color'' JUndefined (spread newBorder), slug, JUndefined)
                 else (spread newBorder, JUndefined, JUndefined))))
        else Inr (spread newBorder, JUndefined, JUndefined))
       (\<lambda>(newBorderStyles, newBorderColor, newSideBorderColors).
          Inr (JObj
            [(''style'',
                cleanEmptyObject (JObj (AList.update ''border''
                  (JObj (assign [(''radius'', own (own style ''border'') ''radius'')] newBorderStyles))
                  (spread style)))),
             (''borderColor'', newBorderColor),
             (''sideBorderColors'', newSideBorderColors)]))"

text \<open>\<^verbatim>\<open>hasBorderValue( props )\<close>, on \<^verbatim>\<open>props.attributes\<close>;
  \<^verbatim>\<open>isDefinedBorder\<close> comes from the components package and is a parameter.\<close>

definition hasBorderValue :: "(jsval \<Rightarrow> bool) \<Rightarrow> jsval \<Rightarrow> error + bool" where
  "hasBorderValue isDefinedBorder attributes =
     bind_r (get attributes ''borderColor'') (\<lambda>borderColor.
     bind_r (get attributes ''sideBorderColors'') (\<lambda>sideBorderColors.
     bind_r (get attributes ''style'') (\<lambda>style.
       Inr (isDefinedBorder (own style ''border'') \<or> truthy borderColor \<or> truthy sideBorderColors))))"


section \<open>Border colour class names\<close>

text \<open>Joining with a separator, as \<^verbatim>\<open>Array.prototype.join\<close> does.\<close>

fun join_with :: "string \<Rightarrow> string list \<Rightarrow> string" where
  "join_with sep [] = []"
| "join_with sep [x] = x"
| "join_with sep (x # y # ys) = x @ sep @ join_with sep (y # ys)"

text \<open>
  The string a template literal or a computed property key makes of a value. A number
  is an integer here and printed in decimal; an array joins its elements with commas,
  \<^verbatim>\<open>undefined\<close> and \<^verbatim>\<open>null\<close> among them printing as nothing.
\<close>

fun to_string :: "jsval \<Rightarrow> string" where
  "to_string JUndefined = ''undefined''"
| "to_string JNull = ''null''"
| "to_string (JBool b) = (if b then ''true'' else ''false'')"
| "to_string (JNum n) =
     (if n < 0 then ''-'' @ decimal (nat (- n)) else decimal (nat n))"
| "to_string (JStr s) = s"
| "to_string (JArr xs) =
     join_with '','' (map (\<lambda>x. if nullish x then [] else to_string x) xs)"
| "to_string (JObj kvs) = ''[object Object]''"
| "to_string (JProto inherited kvs) = ''[object Object]''"

text \<open>
  Modelled from the spec: \<^verbatim>\<open>getColorClassName\<close> is imported from
  \<^verbatim>\<open>../components/colors\<close>, which is not among the sources. The spec gives the
  palette's class tokens the format \<^verbatim>\<open>has-{slug}-border-color\<close> and
  \<^verbatim>\<open>has-{slug}-border-{side}-color\<close>, there ``wherever a named slug is active'':
  with a slug the class is \<^verbatim>\<open>has-\<close>, the slug, a dash and the context name;
  without one there is no class.
\<close>

definition getColorClassName :: "string \<Rightarrow> jsval \<Rightarrow> jsval" where
  "getColorClassName colorContextName colorSlug =
     (if truthy colorSlug
      then JStr (''has-'' @ to_string colorSlug @ ''-'' @ colorContextName)
      else JUndefined)"

text \<open>
  \<^verbatim>\<open>classnames\<close> is the npm package of that name, called here with one object: it
  joins with a space the keys whose values are truthy, in the order of the keys.
\<close>

definition classnames :: "(string \<times> jsval) list \<Rightarrow> string" where
  "classnames classes = join_with '' '' (map fst (filter (\<lambda>p. truthy (snd p)) classes))"

text \<open>\<^verbatim>\<open>getSideBorderClasses\<close>: the callback of \<^verbatim>\<open>borderSides.reduce\<close>, with
  \<^verbatim>\<open>sideBorderColors\<close> and \<^verbatim>\<open>style\<close> taken from the attributes.\<close>

definition side_classes ::
  "jsval \<Rightarrow> jsval \<Rightarrow> (string \<times> jsval) list \<Rightarrow> string \<Rightarrow> (string \<times> jsval) list" where
  "side_classes sideBorderColors style classes side =
     (let color = own sideBorderColors side;
          hasColor = js_or color (own (own (own style ''border'') side) ''color'');
          baseClassName = ''border-'' @ side @ ''-color'';
          colorClass = getColorClassName baseClassName color
      in AList.update (to_string colorClass) (JBool (truthy colorClass))
           (AList.update (''has-'' @ baseClassName) hasColor classes))"

definition getSideBorderClasses :: "jsval \<Rightarrow> error + (string \<times> jsval) list" where
  "getSideBorderClasses attributes =
     bind_r (get attributes ''sideBorderColors'') (\<lambda>sideBorderColors.
     bind_r (get attributes ''style'') (\<lambda>style.
       Inr (foldl (side_classes sideBorderColors style) [] borderSides)))"

definition getBorderClasses :: "jsval \<Rightarrow> error + string" where
  "getBorderClasses attributes =
     bind_r (get attributes ''borderColor'') (\<lambda>borderColor.
     bind_r (get attributes ''style'') (\<lambda>style.
       let borderColorClass = getColorClassName ''border-color'' borderColor
       in bind_r (getSideBorderClasses attributes) (\<lambda>sideBorderClasses.
            Inr (classnames
              (assign
                 (AList.update (to_string borderColorClass) (JBool (truthy borderColorClass))
                    [(''has-border-color'',
                      js_or borderColor (own (own style ''border'') ''color''))])
                 sideBorderClasses)))))"

section \<open>Vocabulary of the statements\<close>

text \<open>
  The spec's data model: the origins are a list of objects, each with a \<^verbatim>\<open>colors\<close>
  list of entries, and an entry is an object. \<^term>\<open>all_entries colors\<close> lists the
  entries in search order: origin by origin, and by position within an origin.
\<close>

fun is_array :: "jsval \<Rightarrow> bool" where
  "is_array (JArr xs) = True"
| "is_array _ = False"

fun elems :: "jsval \<Rightarrow> jsval list" where
  "elems (JArr xs) = xs"
| "elems _ = []"

definition entries :: "jsval \<Rightarrow> jsval list" where
  "entries origin = elems (own origin ''colors'')"

definition wf_origin :: "jsval \<Rightarrow> bool" where
  "wf_origin origin =
     (\<not> nullish origin \<and> is_array (own origin ''colors'') \<and>
      list_all (\<lambda>c. \<not> nullish c) (entries origin))"

definition wf_colors :: "jsval \<Rightarrow> bool" where
  "wf_colors colors = (is_array colors \<and> list_all wf_origin (elems colors))"

definition all_entries :: "jsval \<Rightarrow> jsval list" where
  "all_entries colors = concat (map entries (elems colors))"

text \<open>The first entry, in search order, whose property \<open>p\<close> is strictly equal to \<open>v\<close>.\<close>

definition lookup_by :: "jsval \<Rightarrow> string \<Rightarrow> jsval \<Rightarrow> jsval option" where
  "lookup_by colors p v = find (\<lambda>c. strict_eq (own c p) v) (all_entries colors)"

text \<open>The palette of the spec's examples: one origin, the theme, with one colour.\<close>

definition theme :: jsval where
  "theme = JArr [JObj [(''name'', JStr ''theme''),
     (''colors'', JArr [JObj [(''slug'', JStr ''primary''), (''color'', JStr ''#111111'')]])]]"

text \<open>
  The properties of a value as a spread copies them, and one of them by name. On a
  plain object \<^term>\<open>field v k\<close> is \<^term>\<open>own v k\<close>.
\<close>

definition props :: "jsval \<Rightarrow> string \<rightharpoonup> jsval" where
  "props v = map_of (spread v)"

definition field :: "jsval \<Rightarrow> string \<Rightarrow> jsval" where
  "field v k = (case props v k of None \<Rightarrow> JUndefined | Some x \<Rightarrow> x)"

text \<open>The stored border, \<^verbatim>\<open>attributes.style?.border\<close>.\<close>

definition stored_border :: "jsval \<Rightarrow> jsval" where
  "stored_border attributes = own (own attributes ''style'') ''border''"

text \<open>The colour a name resolves to, and the slug a literal colour resolves to:
  \<^verbatim>\<open>getMultiOriginColor( { colors, namedColor } ).color\<close> and
  \<^verbatim>\<open>getMultiOriginColor( { colors, customColor } ).slug\<close>.\<close>

definition named_color :: "jsval \<Rightarrow> jsval \<Rightarrow> jsval" where
  "named_color colors slug =
     (case getMultiOriginColor colors slug JUndefined of
        Inl e \<Rightarrow> JUndefined
      | Inr colorObject \<Rightarrow> own colorObject ''color'')"

definition literal_slug :: "jsval \<Rightarrow> jsval \<Rightarrow> jsval" where
  "literal_slug colors customColor =
     (case getMultiOriginColor colors JUndefined customColor of
        Inl e \<Rightarrow> JUndefined
      | Inr colorObject \<Rightarrow> own colorObject ''slug'')"

text \<open>What one round of the loop of \<^const>\<open>getBorderObject\<close> does to the properties
  of \<^verbatim>\<open>hydratedBorderStyles\<close> when the palette lookup does not fail and the side is
  not \<^verbatim>\<open>__proto__\<close>.\<close>

definition hydrate_step ::
  "jsval \<Rightarrow> (string \<times> jsval) list \<Rightarrow> string \<times> jsval \<Rightarrow> (string \<times> jsval) list" where
  "hydrate_step colors h entry =
     (if truthy (named_color colors (snd entry))
      then define_property (fst entry)
             (JObj (AList.update ''color'' (named_color colors (snd entry))
                (spread (own (JObj h) (fst entry))))) h
      else h)"

text \<open>A value is valid when it is plain data, no object in it having had its prototype
  replaced, in which every object has each of its keys once, as every JavaScript object
  does.\<close>

fun valid :: "jsval \<Rightarrow> bool" where
  "valid (JObj kvs) = (distinct (map fst kvs) \<and> list_all (\<lambda>p. valid (snd p)) kvs)"
| "valid (JArr xs) = list_all valid xs"
| "valid (JProto inherited kvs) = False"
| "valid _ = True"

fun keys_distinct :: "jsval \<Rightarrow> bool" where
  "keys_distinct (JObj kvs) = distinct (map fst kvs)"
| "keys_distinct (JProto inherited kvs) = False"
| "keys_distinct _ = True"

text \<open>The normal form of the spec: plain data in which no property, at any depth of
  nested objects, is \<^verbatim>\<open>undefined\<close> or the empty object.\<close>

fun normalized :: "jsval \<Rightarrow> bool"
  and normalized_props :: "(string \<times> jsval) list \<Rightarrow> bool" where
  "normalized (JObj kvs) = normalized_props kvs"
| "normalized (JProto inherited kvs) = False"
| "normalized JUndefined = True"
| "normalized JNull = True"
| "normalized (JBool b) = True"
| "normalized (JNum n) = True"
| "normalized (JStr s) = True"
| "normalized (JArr xs) = True"
| "normalized_props [] = True"
| "normalized_props (p # kvs) =
     (snd p \<noteq> JUndefined \<and> snd p \<noteq> JObj [] \<and> normalized (snd p) \<and> normalized_props kvs)"

text \<open>What is left of a property's value after \<^const>\<open>cleanEmptyObject\<close>: the cleaned
  value, or nothing when that is the empty object.\<close>

definition cleaned :: "jsval \<Rightarrow> jsval" where
  "cleaned v = (if cleanEmptyObject v = JObj [] then JUndefined else cleanEmptyObject v)"

text \<open>
  Modelled from the spec: \<^verbatim>\<open>hasSplitBorders\<close> is exported by the components
  package, whose source is not among the sources. In the spec's data model a border is
  either flat, with its fields directly on the object, or split, ``four independent
  SideBorders keyed by side name (top, right, bottom, left)'', and the mode is ``inferred
  from data shape'': a border is split when it has a property named after a side. The
  theorems below hold for every predicate in its place; this one instantiates them in
  the examples.
\<close>

definition hasSplitBorders :: "jsval \<Rightarrow> bool" where
  "hasSplitBorders border =
     list_ex (\<lambda>side. side \<in> set (map fst (spread border))) borderSides"

text \<open>
  \<^const>\<open>onBorderChange\<close> when the palette lookups do not fail. A side (or the flat
  colour) matches when its colour is set and the literal search finds a slug;
  \<^term>\<open>split_step\<close> is one round of the loop over the sides, \<^term>\<open>split_init\<close> the
  initial \<^verbatim>\<open>newBorderStyles\<close> of the split branch, \<^term>\<open>split_styles\<close> the
  final one, and \<^term>\<open>new_style\<close> the style object built from \<^verbatim>\<open>newBorderStyles\<close>.
\<close>

definition side_matches :: "jsval \<Rightarrow> jsval \<Rightarrow> string \<Rightarrow> bool" where
  "side_matches colors newBorder side =
     (truthy (own (own newBorder side) ''color'') \<and>
      truthy (literal_slug colors (own (own newBorder side) ''color'')))"

definition flat_matches :: "jsval \<Rightarrow> jsval \<Rightarrow> bool" where
  "flat_matches colors newBorder =
     (truthy (own newBorder ''color'') \<and> truthy (literal_slug colors (own newBorder ''color'')))"

definition split_step ::
  "jsval \<Rightarrow> jsval \<Rightarrow> (string \<times> (string \<times> jsval) list) list \<times> (string \<times> jsval) list \<Rightarrow> string
     \<Rightarrow> (string \<times> (string \<times> jsval) list) list \<times> (string \<times> jsval) list" where
  "split_step colors newBorder acc side =
     (if side_matches colors newBorder side
      then (AList.map_entry side (AList.update ''color'' JUndefined) (fst acc),
            AList.update side (literal_slug colors (own (own newBorder side) ''color'')) (snd acc))
      else acc)"

definition split_init :: "jsval \<Rightarrow> (string \<times> (string \<times> jsval) list) list" where
  "split_init newBorder = map (\<lambda>side. (side, spread (own newBorder side))) borderSides"

definition split_styles :: "jsval \<Rightarrow> jsval \<Rightarrow> (string \<times> jsval) list" where
  "split_styles colors newBorder =
     map (\<lambda>(side, props). (side, JObj props))
       (fst (foldl (split_step colors newBorder) (split_init newBorder, []) borderSides))"

definition new_style :: "jsval \<Rightarrow> (string \<times> jsval) list \<Rightarrow> jsval" where
  "new_style style newBorderStyles =
     cleanEmptyObject (JObj (AList.update ''border''
        (JObj (assign [(''radius'', own (own style ''border'') ''radius'')] newBorderStyles))
        (spread style)))"

text \<open>
  The spec's data model for colours: a colour is a non-empty string when it is there
  at all, and so is a slug. In a palette where the slug determines the colour, entries with the same
  (non-empty) slug have the same colour; origins that do not repeat each other's slugs
  are such a palette.
\<close>

fun str_or_absent :: "jsval \<Rightarrow> bool" where
  "str_or_absent JUndefined = True"
| "str_or_absent (JStr s) = (s \<noteq> [])"
| "str_or_absent _ = False"

definition slug_determines_color :: "jsval \<Rightarrow> bool" where
  "slug_determines_color colors =
     list_all (\<lambda>e. str_or_absent (own e ''slug'') \<and>
                 list_all (\<lambda>e'. truthy (own e ''slug'') \<and> own e' ''slug'' = own e ''slug''
                                   \<longrightarrow> own e' ''color'' = own e ''color'')
                   (all_entries colors))
       (all_entries colors)"

text \<open>A palette of two origins that both have the slug \<^verbatim>\<open>black\<close>, the theme's
  first, with different colours.\<close>

definition two_blacks :: jsval where
  "two_blacks = JArr
     [JObj [(''name'', JStr ''theme''),
            (''colors'', JArr [JObj [(''slug'', JStr ''black''), (''color'', JStr ''#111111'')]])],
      JObj [(''name'', JStr ''default''),
            (''colors'', JArr [JObj [(''slug'', JStr ''black''), (''color'', JStr ''#000000'')]])]]"

text \<open>
  The class tokens as the spec lists them: for the flat border and for each side the
  fixed token, there when the facet has a named or a literal colour, then the palette's
  token, there when the facet has a named colour.
\<close>

definition flat_tokens :: "jsval \<Rightarrow> string list" where
  "flat_tokens attributes =
     (let slug = own attributes ''borderColor'';
          literal = own (stored_border attributes) ''color''
      in (if truthy slug \<or> truthy literal then [''has-border-color''] else []) @
         (if truthy slug then [''has-'' @ to_string slug @ ''-border-color''] else []))"

definition side_tokens :: "jsval \<Rightarrow> string \<Rightarrow> string list" where
  "side_tokens attributes side =
     (let slug = own (own attributes ''sideBorderColors'') side;
          literal = own (own (stored_border attributes) side) ''color''
      in (if truthy slug \<or> truthy literal then [''has-border-'' @ side @ ''-color''] else []) @
         (if truthy slug then [''has-'' @ to_string slug @ ''-border-'' @ side @ ''-color''] else []))"

definition expected_classes :: "jsval \<Rightarrow> string" where
  "expected_classes attributes =
     join_with '' '' (flat_tokens attributes @ concat (map (side_tokens attributes) borderSides))"

text \<open>
  For the proof about the class names: the keys of a classes object that
  \<^const>\<open>classnames\<close> keeps; when assigning a key adds at most that key to them (the
  key is new, or a falsy value replaces a falsy one); and the suffix
  \<^verbatim>\<open>border-{side}-color\<close> that tells the keys of one side from those of another.
\<close>

definition tokens :: "(string \<times> jsval) list \<Rightarrow> string list" where
  "tokens classes = map fst (filter (\<lambda>p. truthy (snd p)) classes)"

definition assignable :: "(string \<times> jsval) list \<Rightarrow> string \<times> jsval \<Rightarrow> bool" where
  "assignable al p =
     (fst p \<notin> fst ` set al \<or>
      (\<not> truthy (snd p) \<and> (\<forall>v'. (fst p, v') \<in> set al \<longrightarrow> \<not> truthy v')))"

definition side_suffix :: "string \<Rightarrow> string" where
  "side_suffix side = ''border-'' @ side @ ''-color''"

definition side_inv :: "string set \<Rightarrow> (string \<times> jsval) list \<Rightarrow> bool" where
  "side_inv done classes =
     (\<forall>p\<in>set classes. (fst p = ''undefined'' \<and> \<not> truthy (snd p)) \<or>
                        (\<exists>S\<in>done. suffix (side_suffix S) (fst p)))"

section \<open>Properties of the colour resolver\<close>

lemma strict_eq_JStr [simp]: "strict_eq x (JStr s) = (x = JStr s)"
  by (cases x) auto

lemma truthy_not_nullish: "truthy v \<Longrightarrow> \<not> nullish v"
  by (cases v) (auto simp: nullish_def)

lemma strict_eq_own_truthy: "strict_eq (own c p) v \<Longrightarrow> truthy v \<Longrightarrow> truthy c"
  by (cases c; cases v) auto

lemma as_array_elems: "is_array v \<Longrightarrow> as_array v = Inr (elems v)"
  by (cases v) auto

lemma find_app: "find P (xs @ ys) = (case find P xs of None \<Rightarrow> find P ys | Some x \<Rightarrow> Some x)"
  by (induction xs) auto

lemma find_first: "\<forall>y\<in>set xs. \<not> P y \<Longrightarrow> P x \<Longrightarrow> find P (xs @ x # ys) = Some x"
  by (induction xs) auto

text \<open>On well-formed origins the two nested \<^verbatim>\<open>some\<close> loops are a search for the first
  match in the flattened list of entries.\<close>

lemma some_color_find:
  "list_all (\<lambda>c. \<not> nullish c) cs \<Longrightarrow>
   some_color p v cs = Inr (find (\<lambda>c. strict_eq (own c p) v) cs)"
  by (induction cs) (auto simp: get_def)

lemma some_origin_find:
  "list_all wf_origin os \<Longrightarrow>
   some_origin p v os = Inr (find (\<lambda>c. strict_eq (own c p) v) (concat (map entries os)))"
  by (induction os)
     (auto simp: wf_origin_def get_def bind_r_def as_array_elems entries_def some_color_find
           find_app split: option.splits)

lemma getColorByProperty_find:
  "wf_colors colors \<Longrightarrow>
   getColorByProperty colors p v =
     Inr (case lookup_by colors p v of None \<Rightarrow> JUndefined | Some c \<Rightarrow> c)"
  by (simp add: wf_colors_def all_entries_def lookup_by_def getColorByProperty_def bind_r_def
        some_origin_find as_array_elems)

lemma lookup_by_truthy: "lookup_by colors p v = Some c \<Longrightarrow> truthy v \<Longrightarrow> truthy c"
  by (auto simp: lookup_by_def find_Some_iff strict_eq_own_truthy)

lemma lookup_by_None:
  "(lookup_by colors p v = None) = (\<forall>e\<in>set (all_entries colors). \<not> strict_eq (own e p) v)"
  by (auto simp: lookup_by_def find_None_iff)

lemma getMultiOriginColor_wf:
  "wf_colors colors \<Longrightarrow>
   getMultiOriginColor colors n c =
     Inr (case (if truthy n then lookup_by colors ''slug'' n else None) of
            Some e \<Rightarrow> e
          | None \<Rightarrow>
              if \<not> truthy c then JObj [(''color'', JUndefined)]
              else (case lookup_by colors ''color'' c of
                      Some e \<Rightarrow> e
                    | None \<Rightarrow> JObj [(''color'', c)]))"
  by (auto simp: getMultiOriginColor_def getColorByProperty_find bind_r_def Let_def
           split: option.splits dest: lookup_by_truthy)

lemma getMultiOriginColor_total:
  assumes "wf_colors colors"
  shows "\<exists>r. getMultiOriginColor colors n c = Inr r \<and> \<not> nullish r"
  using assms
  by (auto simp: getMultiOriginColor_wf nullish_def split: option.splits
           dest!: lookup_by_truthy)

lemma lookup_by_first:
  assumes "elems colors = before @ origin # after"
    and "\<forall>og\<in>set before. \<forall>e\<in>set (entries og). \<not> strict_eq (own e p) v"
    and "entries origin = es1 @ entry # es2"
    and "\<forall>e\<in>set es1. \<not> strict_eq (own e p) v"
    and "strict_eq (own entry p) v"
  shows "lookup_by colors p v = Some entry"
proof -
  have "all_entries colors =
      (concat (map entries before) @ es1) @ entry # (es2 @ concat (map entries after))"
    using assms(1,3) by (simp add: all_entries_def)
  moreover have "\<forall>y\<in>set (concat (map entries before) @ es1). \<not> strict_eq (own y p) v"
    using assms(2,4) by auto
  ultimately show ?thesis
    unfolding lookup_by_def
    using assms(5)
      find_first[of "concat (map entries before) @ es1" "\<lambda>c. strict_eq (own c p) v" entry]
    by simp
qed

lemma first_decomposition:
  assumes "\<exists>origin\<in>set origins. \<exists>e\<in>set (entries origin). P e"
  shows "\<exists>before origin after es1 entry es2.
           origins = before @ origin # after \<and>
           (\<forall>og\<in>set before. \<forall>e\<in>set (entries og). \<not> P e) \<and>
           entries origin = es1 @ entry # es2 \<and> (\<forall>e\<in>set es1. \<not> P e) \<and> P entry"
proof -
  from assms obtain before origin after where og: "origins = before @ origin # after"
      "\<exists>e\<in>set (entries origin). P e" "\<forall>og\<in>set before. \<not> (\<exists>e\<in>set (entries og). P e)"
    using split_list_first_prop[of origins "\<lambda>og. \<exists>e\<in>set (entries og). P e"] by blast
  from og(2) obtain es1 entry es2 where
    e: "entries origin = es1 @ entry # es2" "P entry" "\<forall>e\<in>set es1. \<not> P e"
    using split_list_first_prop[of "entries origin" P] by blast
  show ?thesis using og(1,3) e by blast
qed

lemma first_decomposition_flat:
  assumes "\<exists>e\<in>set xs. P e"
  shows "\<exists>before e after. xs = before @ e # after \<and> (\<forall>x\<in>set before. \<not> P x) \<and> P e"
  using split_list_first_prop[OF assms] by blast

lemma theme_wf: "wf_colors theme"
  by (simp add: theme_def wf_colors_def wf_origin_def entries_def nullish_def)

lemma theme_entries:
  "all_entries theme = [JObj [(''slug'', JStr ''primary''), (''color'', JStr ''#111111'')]]"
  by (simp add: theme_def all_entries_def entries_def)

text \<open>
  C1, as the code has it. \<^verbatim>\<open>getMultiOriginColor\<close> looks a name up only when it is
  truthy (\<^verbatim>\<open>if ( namedColor )\<close>), so the name has to be a non-empty string. For
  well-formed origins and every non-empty \<open>namedSlug\<close> that is the slug of some entry
  of some origin, the result is the entry with that slug in the first origin, in list
  order, that has one, and the first such entry within that origin. The result is the
  entry itself, so its slug and its literal colour are those of the palette.
\<close>

theorem resolveColor_named_first_match:
  assumes "wf_colors (JArr origins)" and "namedSlug \<noteq> []"
    and "\<exists>origin\<in>set origins. \<exists>e\<in>set (entries origin). own e ''slug'' = JStr namedSlug"
  shows "\<exists>before origin after es1 entry es2.
           origins = before @ origin # after \<and>
           (\<forall>og\<in>set before. \<forall>e\<in>set (entries og). own e ''slug'' \<noteq> JStr namedSlug) \<and>
           entries origin = es1 @ entry # es2 \<and>
           (\<forall>e\<in>set es1. own e ''slug'' \<noteq> JStr namedSlug) \<and>
           own entry ''slug'' = JStr namedSlug \<and>
           getMultiOriginColor (JArr origins) (JStr namedSlug) customColor = Inr entry"
proof -
  from first_decomposition[OF assms(3)] obtain before origin after es1 entry es2 where
    d: "origins = before @ origin # after"
       "\<forall>og\<in>set before. \<forall>e\<in>set (entries og). own e ''slug'' \<noteq> JStr namedSlug"
       "entries origin = es1 @ entry # es2" "\<forall>e\<in>set es1. own e ''slug'' \<noteq> JStr namedSlug"
       "own entry ''slug'' = JStr namedSlug"
    by blast
  have "lookup_by (JArr origins) ''slug'' (JStr namedSlug) = Some entry"
    using d
    by (intro lookup_by_first[where before=before and origin=origin and after=after
          and ?es1.0=es1 and ?es2.0=es2]) auto
  then have "getMultiOriginColor (JArr origins) (JStr namedSlug) customColor = Inr entry"
    using assms(1,2) by (simp add: getMultiOriginColor_wf)
  with d show ?thesis by blast
qed

text \<open>The theme palette and the slug \<^verbatim>\<open>primary\<close>: the entry found is the palette's.\<close>

theorem resolveColor_named_first_match_witness:
  "(\<exists>before origin after es1 entry es2.
      elems theme = before @ origin # after \<and>
      (\<forall>og\<in>set before. \<forall>e\<in>set (entries og). own e ''slug'' \<noteq> JStr ''primary'') \<and>
      entries origin = es1 @ entry # es2 \<and>
      (\<forall>e\<in>set es1. own e ''slug'' \<noteq> JStr ''primary'') \<and>
      own entry ''slug'' = JStr ''primary'' \<and>
      getMultiOriginColor theme (JStr ''primary'') JUndefined = Inr entry) \<and>
   getMultiOriginColor theme (JStr ''primary'') JUndefined
     = Inr (JObj [(''slug'', JStr ''primary''), (''color'', JStr ''#111111'')])"
proof -
  have h1: "wf_colors (JArr (elems theme))"
    by (simp add: theme_def wf_colors_def wf_origin_def entries_def nullish_def)
  have h2: "''primary'' \<noteq> []" by simp
  have h3: "\<exists>origin\<in>set (elems theme). \<exists>e\<in>set (entries origin). own e ''slug'' = JStr ''primary''"
    by (simp add: theme_def entries_def)
  have t: "JArr (elems theme) = theme" by (simp add: theme_def)
  have v: "getMultiOriginColor theme (JStr ''primary'') JUndefined
     = Inr (JObj [(''slug'', JStr ''primary''), (''color'', JStr ''#111111'')])"
    by (simp add: theme_def getMultiOriginColor_def getColorByProperty_def bind_r_def get_def
          nullish_def)
  show ?thesis
    using resolveColor_named_first_match[OF h1 h2 h3, of JUndefined] v unfolding t by blast
qed

text \<open>
  C1 as stated fails for the empty slug: the palette below has an entry whose slug is the
  empty string, and looking that slug up yields no colour instead of the entry, because
  the empty string is falsy and the lookup by name is skipped.
\<close>

theorem resolveColor_empty_slug_counterexample:
  "own (JObj [(''slug'', JStr ''''), (''color'', JStr ''#111111'')]) ''slug'' = JStr '''' \<and>
   getMultiOriginColor
     (JArr [JObj [(''name'', JStr ''theme''),
        (''colors'', JArr [JObj [(''slug'', JStr ''''), (''color'', JStr ''#111111'')]])]])
     (JStr '''') JUndefined
   = Inr (JObj [(''color'', JUndefined)])"
  by (simp add: getMultiOriginColor_def)

text \<open>
  C2, as the code has it. \<^verbatim>\<open>getMultiOriginColor\<close> tests the literal colour for
  truthiness (\<^verbatim>\<open>if ( ! customColor )\<close>), so an empty string counts as absent. For
  well-formed origins, whenever the name is absent or no entry has it as its slug:
  without a (truthy) literal colour the result is \<^verbatim>\<open>{ color: undefined }\<close>; a
  non-empty literal colour that is the colour of some entry yields the first such entry
  in search order, slug included; a non-empty literal colour that no entry has yields
  the synthetic \<^verbatim>\<open>{ color: literalColor }\<close>, whose slug is \<^verbatim>\<open>undefined\<close>.
\<close>

theorem resolveColor_literal_fallback:
  assumes "wf_colors colors"
    and "\<not> truthy namedSlug \<or> (\<forall>e\<in>set (all_entries colors). \<not> strict_eq (own e ''slug'') namedSlug)"
  shows "(\<not> truthy literalColor \<longrightarrow>
            getMultiOriginColor colors namedSlug literalColor = Inr (JObj [(''color'', JUndefined)])) \<and>
         (\<forall>l. literalColor = JStr l \<and> l \<noteq> [] \<and> (\<exists>e\<in>set (all_entries colors). own e ''color'' = JStr l) \<longrightarrow>
            (\<exists>before e after.
               all_entries colors = before @ e # after \<and>
               (\<forall>x\<in>set before. own x ''color'' \<noteq> JStr l) \<and>
               own e ''color'' = JStr l \<and>
               getMultiOriginColor colors namedSlug literalColor = Inr e)) \<and>
         (\<forall>l. literalColor = JStr l \<and> l \<noteq> [] \<and> (\<forall>e\<in>set (all_entries colors). own e ''color'' \<noteq> JStr l) \<longrightarrow>
            getMultiOriginColor colors namedSlug literalColor = Inr (JObj [(''color'', JStr l)]) \<and>
            own (JObj [(''color'', JStr l)]) ''slug'' = JUndefined)"
proof -
  have named: "(if truthy namedSlug then lookup_by colors ''slug'' namedSlug else None) = None"
    using assms(2) by (auto simp: lookup_by_None)
  have r: "getMultiOriginColor colors namedSlug literalColor =
     Inr (if \<not> truthy literalColor then JObj [(''color'', JUndefined)]
          else (case lookup_by colors ''color'' literalColor of Some e \<Rightarrow> e
                | None \<Rightarrow> JObj [(''color'', literalColor)]))"
    using assms(1) named by (simp add: getMultiOriginColor_wf)
  have a: "\<not> truthy literalColor \<longrightarrow>
            getMultiOriginColor colors namedSlug literalColor = Inr (JObj [(''color'', JUndefined)])"
    using r by simp
  have b: "\<exists>before e after.
               all_entries colors = before @ e # after \<and>
               (\<forall>x\<in>set before. own x ''color'' \<noteq> JStr l) \<and>
               own e ''color'' = JStr l \<and>
               getMultiOriginColor colors namedSlug literalColor = Inr e"
    if l: "literalColor = JStr l" "l \<noteq> []" "\<exists>e\<in>set (all_entries colors). own e ''color'' = JStr l" for l
  proof -
    from first_decomposition_flat[OF l(3)] obtain before e after where
      d: "all_entries colors = before @ e # after" "\<forall>x\<in>set before. own x ''color'' \<noteq> JStr l"
         "own e ''color'' = JStr l"
      by blast
    have "lookup_by colors ''color'' (JStr l) = Some e"
      unfolding lookup_by_def d(1) using d(2,3) by (intro find_first) auto
    then have "getMultiOriginColor colors namedSlug literalColor = Inr e"
      using r l(1,2) by simp
    with d show ?thesis by blast
  qed
  have c: "getMultiOriginColor colors namedSlug literalColor = Inr (JObj [(''color'', JStr l)]) \<and>
            own (JObj [(''color'', JStr l)]) ''slug'' = JUndefined"
    if l: "literalColor = JStr l" "l \<noteq> []" "\<forall>e\<in>set (all_entries colors). own e ''color'' \<noteq> JStr l" for l
  proof -
    have "lookup_by colors ''color'' (JStr l) = None"
      using l(3) by (simp add: lookup_by_None)
    then show ?thesis using r l(1,2) by simp
  qed
  show ?thesis using a b c by blast
qed

text \<open>The theme palette: no literal, the literal of the palette's entry, and a literal
  the palette does not have.\<close>

theorem resolveColor_literal_fallback_witness:
  "getMultiOriginColor theme JUndefined JUndefined = Inr (JObj [(''color'', JUndefined)]) \<and>
   (\<exists>before e after.
      all_entries theme = before @ e # after \<and>
      (\<forall>x\<in>set before. own x ''color'' \<noteq> JStr ''#111111'') \<and>
      own e ''color'' = JStr ''#111111'' \<and>
      getMultiOriginColor theme JUndefined (JStr ''#111111'') = Inr e) \<and>
   getMultiOriginColor theme JUndefined (JStr ''#222222'') = Inr (JObj [(''color'', JStr ''#222222'')])"
proof -
  have h2: "\<not> truthy JUndefined \<or> (\<forall>e\<in>set (all_entries theme). \<not> strict_eq (own e ''slug'') JUndefined)"
    by simp
  have p: "\<exists>e\<in>set (all_entries theme). own e ''color'' = JStr ''#111111''"
    by (simp add: theme_entries)
  have q: "\<forall>e\<in>set (all_entries theme). own e ''color'' \<noteq> JStr ''#222222''"
    by (simp add: theme_entries)
  show ?thesis
    using resolveColor_literal_fallback[OF theme_wf h2, of JUndefined]
      resolveColor_literal_fallback[OF theme_wf h2, of "JStr ''#111111''"]
      resolveColor_literal_fallback[OF theme_wf h2, of "JStr ''#222222''"] p q
    by simp
qed

text \<open>
  C2 as stated fails for the empty literal colour: no entry of the theme palette has the
  empty string as its colour, and yet the result is \<^verbatim>\<open>{ color: undefined }\<close>, not
  the synthetic entry whose colour is the literal.
\<close>

theorem resolveColor_empty_literal_counterexample:
  "list_all (\<lambda>e. own e ''color'' \<noteq> JStr '''') (all_entries theme) \<and>
   getMultiOriginColor theme JUndefined (JStr '''') = Inr (JObj [(''color'', JUndefined)]) \<and>
   getMultiOriginColor theme JUndefined (JStr '''') \<noteq> Inr (JObj [(''color'', JStr ''''), (''slug'', JUndefined)]) \<and>
   getMultiOriginColor theme JUndefined (JStr '''') \<noteq> Inr (JObj [(''color'', JStr '''')])"
  by (simp add: theme_entries getMultiOriginColor_def)

section \<open>Which inputs make the operations fail\<close>

lemma forEach_r_total:
  assumes "\<And>s x. x \<in> set xs \<Longrightarrow> \<exists>s'. f s x = Inr s'"
  shows "\<exists>s'. forEach_r f xs s = Inr s'"
  using assms
proof (induction xs arbitrary: s)
  case Nil
  then show ?case by simp
next
  case (Cons x xs)
  from Cons.prems[of x s] obtain s1 where s1: "f s x = Inr s1" by auto
  from Cons.IH[of s1] Cons.prems obtain s2 where "forEach_r f xs s1 = Inr s2" by auto
  with s1 show ?case by simp
qed

lemma hydrate_side_total:
  assumes "wf_colors colors"
  shows "\<exists>h'. hydrate_side colors h entry = Inr h'"
proof -
  obtain side namedColor where e: "entry = (side, namedColor)" by (cases entry)
  from getMultiOriginColor_total[OF assms, of namedColor JUndefined]
  obtain r where "getMultiOriginColor colors namedColor JUndefined = Inr r" "\<not> nullish r" by blast
  then show ?thesis by (simp add: hydrate_side_def e bind_r_def get_def)
qed

lemma getBorderObject_total:
  assumes "wf_colors colors" "\<not> nullish attributes"
  shows "\<exists>h. getBorderObject attributes colors = Inr h"
proof -
  have js: "\<not> nullish (js_or (own attributes ''style'') (JObj []))"
    by (auto simp: js_or_def truthy_not_nullish nullish_def)
  from getMultiOriginColor_total[OF assms(1), of "own attributes ''borderColor''" JUndefined]
  obtain r where r: "getMultiOriginColor colors (own attributes ''borderColor'') JUndefined = Inr r" "\<not> nullish r"
    by blast
  from forEach_r_total[of "spread (own attributes ''sideBorderColors'')" "hydrate_side colors"]
    hydrate_side_total[OF assms(1)]
  obtain h where h: "forEach_r (hydrate_side colors) (spread (own attributes ''sideBorderColors''))
        (JObj (spread (own (js_or (own attributes ''style'') (JObj [])) ''border''))) = Inr h"
    by blast
  show ?thesis
    using assms(2) js r h by (simp add: getBorderObject_def bind_r_def get_def)
qed

lemma split_side_total:
  assumes "wf_colors colors" "\<not> nullish newBorder"
  shows "\<exists>acc'. split_side colors newBorder acc side = Inr acc'"
proof -
  obtain a b where acc: "acc = (a, b)" by (cases acc)
  from getMultiOriginColor_total[OF assms(1), of JUndefined "own (own newBorder side) ''color''"]
  obtain r where "getMultiOriginColor colors JUndefined (own (own newBorder side) ''color'') = Inr r" "\<not> nullish r"
    by blast
  then show ?thesis using assms(2) by (simp add: split_side_def acc bind_r_def get_def)
qed

lemma onBorderChange_total:
  assumes "wf_colors colors" "hsb newBorder \<longrightarrow> \<not> nullish newBorder"
  shows "\<exists>u. onBorderChange hsb style colors newBorder = Inr u"
proof (cases "hsb newBorder")
  case True
  then have nn: "\<not> nullish newBorder" using assms(2) by simp
  from forEach_r_total[of borderSides "split_side colors newBorder"] split_side_total[OF assms(1) nn]
  obtain acc where "forEach_r (split_side colors newBorder) borderSides
       ([(''top'', spread (own newBorder ''top'')), (''right'', spread (own newBorder ''right'')),
         (''bottom'', spread (own newBorder ''bottom'')), (''left'', spread (own newBorder ''left''))], []) = Inr acc"
    by blast
  then show ?thesis using True nn
    by (cases acc) (simp add: onBorderChange_def bind_r_def get_def)
next
  case False
  from getMultiOriginColor_total[OF assms(1), of JUndefined "own newBorder ''color''"]
  obtain r where "getMultiOriginColor colors JUndefined (own newBorder ''color'') = Inr r" "\<not> nullish r"
    by blast
  then show ?thesis using False
    by (simp add: onBorderChange_def bind_r_def get_def)
qed

text \<open>
  C8, as the code has it. The code guards absent attributes fields and absent style
  objects (optional chaining, \<^verbatim>\<open>style || {}\<close>, truthiness tests), but it calls
  \<^verbatim>\<open>colors.some\<close>, \<^verbatim>\<open>origin.colors.some\<close> and \<^verbatim>\<open>color[ property ]\<close>
  unguarded, and destructures \<^verbatim>\<open>attributes\<close> unguarded. So the operations are total
  on well-formed origins: \<^verbatim>\<open>getMultiOriginColor\<close> on every name and literal,
  \<^verbatim>\<open>getBorderObject\<close> on every attributes value that is not \<^verbatim>\<open>undefined\<close> or
  \<^verbatim>\<open>null\<close>, \<^verbatim>\<open>onBorderChange\<close> on every new border (one that
  \<^verbatim>\<open>hasSplitBorders\<close> accepts must not be \<^verbatim>\<open>undefined\<close> or \<^verbatim>\<open>null\<close>).
  Absent fields mean no value: no name and no literal resolve to
  \<^verbatim>\<open>{ color: undefined }\<close>, and empty attributes hydrate to \<^verbatim>\<open>undefined\<close>.
\<close>

theorem resolver_total_on_wellformed:
  assumes "wf_colors colors"
  shows "(\<exists>r. getMultiOriginColor colors namedSlug literalColor = Inr r) \<and>
         (\<not> nullish attributes \<longrightarrow> (\<exists>h. getBorderObject attributes colors = Inr h)) \<and>
         ((hsb newBorder \<longrightarrow> \<not> nullish newBorder) \<longrightarrow>
            (\<exists>u. onBorderChange hsb style colors newBorder = Inr u)) \<and>
         getMultiOriginColor colors JUndefined JUndefined = Inr (JObj [(''color'', JUndefined)]) \<and>
         getBorderObject (JObj []) colors = Inr JUndefined"
proof -
  have "getBorderObject (JObj []) colors = Inr JUndefined"
    by (simp add: getBorderObject_def bind_r_def get_def nullish_def js_or_def)
  moreover have "getMultiOriginColor colors JUndefined JUndefined = Inr (JObj [(''color'', JUndefined)])"
    by (simp add: getMultiOriginColor_def)
  ultimately show ?thesis
    using getMultiOriginColor_total[OF assms, of namedSlug literalColor]
      getBorderObject_total[OF assms, of attributes]
      onBorderChange_total[OF assms, of hsb newBorder style]
    by blast
qed

text \<open>The theme palette with the slug \<^verbatim>\<open>primary\<close>, as a name and as the flat
  named colour, and an edit that clears the border.\<close>

theorem resolver_total_on_wellformed_witness:
  "(\<exists>r. getMultiOriginColor theme (JStr ''primary'') JUndefined = Inr r) \<and>
   (\<exists>h. getBorderObject (JObj [(''borderColor'', JStr ''primary'')]) theme = Inr h) \<and>
   (\<exists>u. onBorderChange (\<lambda>b. False) JUndefined theme JUndefined = Inr u)"
  using resolver_total_on_wellformed[OF theme_wf, of "JStr ''primary''" JUndefined
      "JObj [(''borderColor'', JStr ''primary'')]" "\<lambda>b. False" JUndefined JUndefined]
  by (simp add: nullish_def)

text \<open>
  C8 as stated fails: absent origins, an origin without its \<^verbatim>\<open>colors\<close> list and
  absent attributes each end in a TypeError.
\<close>

theorem resolver_not_total_counterexample:
  "getMultiOriginColor JUndefined (JStr ''primary'') JUndefined = Inl TypeError \<and>
   getMultiOriginColor (JArr [JObj [(''name'', JStr ''theme'')]]) JUndefined (JStr ''#111111'') = Inl TypeError \<and>
   getBorderObject (JObj [(''borderColor'', JStr ''primary'')]) JUndefined = Inl TypeError \<and>
   getBorderObject JUndefined theme = Inl TypeError \<and>
   onBorderChange (\<lambda>b. False) JUndefined JUndefined (JObj [(''color'', JStr ''#111111'')]) = Inl TypeError"
  by (simp add: getMultiOriginColor_def getColorByProperty_def getBorderObject_def onBorderChange_def
        bind_r_def get_def nullish_def)

section \<open>Properties of the keys of an object\<close>

lemma update_absent: "map_of kvs k = None \<Longrightarrow> AList.update k v kvs = kvs @ [(k, v)]"
  by (induction kvs) (auto split: if_splits)

lemma map_of_insert:
  "k \<notin> fst ` set xs \<Longrightarrow> map_of (xs @ (k, v) # ys) = (map_of (xs @ ys))(k \<mapsto> v)"
  by (induction xs) (auto simp: fun_eq_iff)

lemma map_of_create_property:
  assumes "map_of kvs k = None"
  shows "map_of (create_property k v kvs) = (map_of kvs)(k \<mapsto> v)"
proof (cases "array_index k")
  case True
  let ?P = "\<lambda>p. array_index (fst p) \<and> numeral_val (fst p) < numeral_val k"
  have "k \<notin> fst ` set kvs" using assms by (simp add: map_of_eq_None_iff)
  then have "k \<notin> fst ` set (takeWhile ?P kvs)"
    using set_takeWhileD by fastforce
  from map_of_insert[OF this, of v "dropWhile ?P kvs"] True
  show ?thesis by (simp add: create_property_def)
next
  case False
  then show ?thesis using assms
    by (simp add: create_property_def fun_eq_iff map_add_def split: option.splits)
qed

lemma distinct_insert:
  "distinct (map fst (xs @ ys)) \<Longrightarrow> k \<notin> fst ` set (xs @ ys) \<Longrightarrow>
   distinct (map fst (xs @ (k, v) # ys))"
  by auto

lemma distinct_create_property:
  assumes "distinct (map fst kvs)" "map_of kvs k = None"
  shows "distinct (map fst (create_property k v kvs))"
proof (cases "array_index k")
  case True
  define xs where "xs = takeWhile (\<lambda>p. array_index (fst p) \<and> numeral_val (fst p) < numeral_val k) kvs"
  define ys where "ys = dropWhile (\<lambda>p. array_index (fst p) \<and> numeral_val (fst p) < numeral_val k) kvs"
  have kvs: "kvs = xs @ ys" by (simp add: xs_def ys_def)
  have "k \<notin> fst ` set (xs @ ys)" using assms(2) by (auto simp: map_of_eq_None_iff kvs)
  moreover have "distinct (map fst (xs @ ys))" using assms(1) by (simp add: kvs)
  ultimately have "distinct (map fst (xs @ (k, v) # ys))" by (rule distinct_insert[rotated])
  then show ?thesis using True by (simp add: create_property_def xs_def ys_def)
next
  case False
  then show ?thesis using assms by (simp add: create_property_def map_of_eq_None_iff)
qed

lemma define_property_update:
  "\<not> array_index k \<Longrightarrow> define_property k v kvs = AList.update k v kvs"
  by (simp add: define_property_def create_property_def update_absent)

lemma map_of_define_property: "map_of (define_property k v kvs) = (map_of kvs)(k \<mapsto> v)"
  by (simp add: define_property_def map_of_create_property update_conv')

lemma distinct_define_property:
  "distinct (map fst kvs) \<Longrightarrow> distinct (map fst (define_property k v kvs))"
  by (simp add: define_property_def distinct_create_property distinct_update)

lemma not_index: "c \<in> set k \<Longrightarrow> \<not> is_digit c \<Longrightarrow> \<not> array_index k"
  by (auto simp: array_index_def list_all_iff)

lemma proto_not_side: "''__proto__'' \<notin> set borderSides"
  by (simp add: borderSides_def)

section \<open>Properties of hydration\<close>

lemma own_falsy: "\<not> truthy v \<Longrightarrow> own v k = JUndefined"
  by (cases v) auto

lemma own_style_or [simp]: "own (js_or style (JObj [])) k = own style k"
  by (auto simp: js_or_def own_falsy)

lemma style_or_not_nullish [simp]: "\<not> nullish (js_or style (JObj []))"
  by (auto simp: js_or_def truthy_not_nullish nullish_def)

lemma field_JObj [simp]: "field (JObj kvs) k = own (JObj kvs) k"
  by (simp add: field_def props_def)

lemma forEach_r_foldl:
  "(\<And>s x. f s x = Inr (g s x)) \<Longrightarrow> forEach_r f xs s = Inr (foldl g s xs)"
  by (induction xs arbitrary: s) auto

lemma hydrate_side_step:
  assumes "wf_colors colors" "fst entry \<noteq> ''__proto__''"
  shows "hydrate_side colors (JObj h) entry = Inr (JObj (hydrate_step colors h entry))"
proof -
  from getMultiOriginColor_total[OF assms(1), of "snd entry" JUndefined]
  obtain r where "getMultiOriginColor colors (snd entry) JUndefined = Inr r" "\<not> nullish r"
    by blast
  then show ?thesis using assms(2)
    by (cases entry)
       (simp add: hydrate_side_def hydrate_step_def spread_property_def bind_r_def get_def
          named_color_def)
qed

lemma hydrate_loop:
  assumes "wf_colors colors"
  shows "''__proto__'' \<notin> fst ` set es \<Longrightarrow>
         forEach_r (hydrate_side colors) es (JObj h) = Inr (JObj (foldl (hydrate_step colors) h es))"
proof (induction es arbitrary: h)
  case Nil
  then show ?case by simp
next
  case (Cons e es)
  then have "fst e \<noteq> ''__proto__''" by auto
  from hydrate_side_step[OF assms this] Cons show ?case by simp
qed

lemma hydrate_fold_lookup:
  assumes "distinct (map fst es)"
  shows "map_of (foldl (hydrate_step colors) h es) side =
     (case map_of es side of
        None \<Rightarrow> map_of h side
      | Some slug \<Rightarrow>
          if truthy (named_color colors slug)
          then Some (JObj (AList.update ''color'' (named_color colors slug) (spread (own (JObj h) side))))
          else map_of h side)"
  using assms
proof (induction es arbitrary: h)
  case Nil
  then show ?case by simp
next
  case (Cons e es)
  obtain s1 slug1 where e: "e = (s1, slug1)" by (cases e)
  have d: "distinct (map fst es)" and notin: "s1 \<notin> fst ` set es"
    using Cons.prems by (auto simp: e)
  let ?h1 = "hydrate_step colors h (s1, slug1)"
  have h1: "map_of ?h1 k = (if k = s1 \<and> truthy (named_color colors slug1)
        then Some (JObj (AList.update ''color'' (named_color colors slug1) (spread (own (JObj h) s1))))
        else map_of h k)" for k
    by (simp add: hydrate_step_def map_of_define_property)
  have IH: "map_of (foldl (hydrate_step colors) ?h1 es) side =
     (case map_of es side of
        None \<Rightarrow> map_of ?h1 side
      | Some slug \<Rightarrow>
          if truthy (named_color colors slug)
          then Some (JObj (AList.update ''color'' (named_color colors slug) (spread (own (JObj ?h1) side))))
          else map_of ?h1 side)"
    by (rule Cons.IH[OF d])
  show ?case
  proof (cases "side = s1")
    case True
    then have "map_of es side = None" using notin by (simp add: map_of_eq_None_iff)
    then show ?thesis using IH True h1[of s1] by (simp add: e)
  next
    case False
    then have m: "map_of ?h1 side = map_of h side"
      using h1[of side] by simp
    then have o: "own (JObj ?h1) side = own (JObj h) side"
      by simp
    have rhs: "map_of ((s1, slug1) # es) side = map_of es side"
      using False by simp
    show ?thesis unfolding e foldl_Cons IH m o rhs by (rule refl)
  qed
qed

lemma getBorderObject_flat:
  assumes "wf_colors colors" "\<not> nullish attributes" "truthy (own attributes ''borderColor'')"
  shows "getBorderObject attributes colors =
     Inr (if truthy (named_color colors (own attributes ''borderColor''))
          then JObj (AList.update ''color'' (named_color colors (own attributes ''borderColor''))
                 (spread (stored_border attributes)))
          else stored_border attributes)"
proof -
  from getMultiOriginColor_total[OF assms(1), of "own attributes ''borderColor''" JUndefined]
  obtain r where "getMultiOriginColor colors (own attributes ''borderColor'') JUndefined = Inr r"
    "\<not> nullish r" by blast
  then show ?thesis using assms(2,3)
    by (simp add: getBorderObject_def stored_border_def get_def bind_r_def
          named_color_def)
qed

lemma proto_not_key: "props v ''__proto__'' = None \<Longrightarrow> ''__proto__'' \<notin> fst ` set (spread v)"
  by (simp add: props_def map_of_eq_None_iff)

lemma getBorderObject_sides:
  assumes "wf_colors colors" "\<not> nullish attributes" "\<not> truthy (own attributes ''borderColor'')"
    "truthy (own attributes ''sideBorderColors'')"
    "props (own attributes ''sideBorderColors'') ''__proto__'' = None"
  shows "getBorderObject attributes colors =
     Inr (JObj (foldl (hydrate_step colors) (spread (stored_border attributes))
            (spread (own attributes ''sideBorderColors''))))"
  using assms(2,3,4)
  by (simp add: getBorderObject_def hydrate_loop[OF assms(1) proto_not_key[OF assms(5)]]
        stored_border_def get_def bind_r_def)

lemma getBorderObject_plain:
  assumes "\<not> nullish attributes" "\<not> truthy (own attributes ''borderColor'')"
    "\<not> truthy (own attributes ''sideBorderColors'')"
  shows "getBorderObject attributes colors = Inr (stored_border attributes)"
  using assms
  by (simp add: getBorderObject_def stored_border_def get_def bind_r_def)

text \<open>
  C3. For well-formed origins and attributes that are not \<^verbatim>\<open>undefined\<close> or
  \<^verbatim>\<open>null\<close>: when \<^verbatim>\<open>borderColor\<close> is set and resolves to a colour, the result
  has the properties of the stored \<^verbatim>\<open>style.border\<close> with \<^verbatim>\<open>color\<close> overlaid
  by that colour and nothing else changed; when it resolves to no colour the stored
  border is returned as it is. Otherwise, when \<^verbatim>\<open>sideBorderColors\<close> is set (an
  object, each key once, no key being \<^verbatim>\<open>__proto__\<close>, which is no side and which an
  assignment treats as the prototype), every side it lists whose slug resolves to a
  colour holds its stored sub-object with \<^verbatim>\<open>color\<close> overlaid, and every other
  property, a side it does not list or one whose slug resolves to nothing, is the stored
  one. Otherwise the stored border is returned as it is.
\<close>

theorem hydrate_overlays_named_colors:
  assumes "wf_colors colors" and "\<not> nullish attributes"
  shows
    "(truthy (own attributes ''borderColor'') \<and>
      truthy (named_color colors (own attributes ''borderColor'')) \<longrightarrow>
        (\<exists>h. getBorderObject attributes colors = Inr (JObj h) \<and>
             map_of h = (props (stored_border attributes))
                          (''color'' \<mapsto> named_color colors (own attributes ''borderColor'')))) \<and>
     (truthy (own attributes ''borderColor'') \<and>
      \<not> truthy (named_color colors (own attributes ''borderColor'')) \<longrightarrow>
        getBorderObject attributes colors = Inr (stored_border attributes)) \<and>
     (\<not> truthy (own attributes ''borderColor'') \<and> truthy (own attributes ''sideBorderColors'') \<and>
      distinct (map fst (spread (own attributes ''sideBorderColors''))) \<and>
      props (own attributes ''sideBorderColors'') ''__proto__'' = None \<longrightarrow>
        (\<exists>h. getBorderObject attributes colors = Inr (JObj h) \<and>
          (\<forall>side.
             case props (own attributes ''sideBorderColors'') side of
               None \<Rightarrow> map_of h side = props (stored_border attributes) side
             | Some slug \<Rightarrow>
                 if truthy (named_color colors slug)
                 then \<exists>s. map_of h side = Some (JObj s) \<and>
                          map_of s = (props (field (stored_border attributes) side))
                                       (''color'' \<mapsto> named_color colors slug)
                 else map_of h side = props (stored_border attributes) side))) \<and>
     (\<not> truthy (own attributes ''borderColor'') \<and> \<not> truthy (own attributes ''sideBorderColors'') \<longrightarrow>
        getBorderObject attributes colors = Inr (stored_border attributes))"
proof -
  let ?st = "stored_border attributes"
  let ?sbc = "own attributes ''sideBorderColors''"
  have own_spread: "own (JObj (spread ?st)) side = field ?st side" for side
    by (simp add: field_def props_def)
  have sides: "case props ?sbc side of
               None \<Rightarrow> map_of (foldl (hydrate_step colors) (spread ?st) (spread ?sbc)) side = props ?st side
             | Some slug \<Rightarrow>
                 if truthy (named_color colors slug)
                 then \<exists>s. map_of (foldl (hydrate_step colors) (spread ?st) (spread ?sbc)) side = Some (JObj s) \<and>
                          map_of s = (props (field ?st side))(''color'' \<mapsto> named_color colors slug)
                 else map_of (foldl (hydrate_step colors) (spread ?st) (spread ?sbc)) side = props ?st side"
    if d: "distinct (map fst (spread ?sbc))" and np: "props ?sbc ''__proto__'' = None" for side
    unfolding hydrate_fold_lookup[OF d] own_spread
    using np by (auto simp: props_def update_conv' split: option.splits)
  show ?thesis
    using getBorderObject_flat[OF assms] getBorderObject_sides[OF assms] getBorderObject_plain[OF assms(2)]
      sides
    by (auto simp: props_def update_conv')
qed

text \<open>The two examples of the spec: the flat name \<^verbatim>\<open>primary\<close> with no stored
  style, and the top side named \<^verbatim>\<open>primary\<close> over a stored top width.\<close>

theorem hydrate_overlays_named_colors_witness:
  "getBorderObject (JObj [(''borderColor'', JStr ''primary'')]) theme
     = Inr (JObj [(''color'', JStr ''#111111'')]) \<and>
   getBorderObject
     (JObj [(''sideBorderColors'', JObj [(''top'', JStr ''primary'')]),
            (''style'', JObj [(''border'', JObj [(''top'', JObj [(''width'', JStr ''2px'')])])])])
     theme
     = Inr (JObj [(''top'', JObj [(''width'', JStr ''2px''), (''color'', JStr ''#111111'')])])"
proof -
  have n1: "\<not> nullish (JObj [(''borderColor'', JStr ''primary'')])"
    by (simp add: nullish_def)
  have n2: "\<not> nullish (JObj [(''sideBorderColors'', JObj [(''top'', JStr ''primary'')]),
            (''style'', JObj [(''border'', JObj [(''top'', JObj [(''width'', JStr ''2px'')])])])])"
    by (simp add: nullish_def)
  have p: "getMultiOriginColor theme (JStr ''primary'') JUndefined
     = Inr (JObj [(''slug'', JStr ''primary''), (''color'', JStr ''#111111'')])"
    by (simp add: theme_def getMultiOriginColor_def getColorByProperty_def bind_r_def get_def
          nullish_def)
  show ?thesis
    using hydrate_overlays_named_colors[OF theme_wf n1] hydrate_overlays_named_colors[OF theme_wf n2]
    by (simp add: getBorderObject_def hydrate_side_def spread_property_def define_property_def
          bind_r_def get_def nullish_def js_or_def p)
qed

section \<open>Properties of normalisation and of object lookups\<close>

lemma cleanEmptyObject_normalized: "normalized (cleanEmptyObject v)"
  and clean_props_normalized: "normalized_props (clean_props kvs)"
  by (induction v and kvs rule: cleanEmptyObject_clean_props.induct) (auto simp: Let_def)


lemma map_of_rev_distinct: "distinct (map fst kvs) \<Longrightarrow> map_of (rev kvs) = map_of kvs"
proof (induction kvs)
  case Nil
  then show ?case by simp
next
  case (Cons p kvs)
  then have IH: "map_of (rev kvs) = map_of kvs" and n: "map_of kvs (fst p) = None"
    by (auto simp: map_of_eq_None_iff)
  show ?case
  proof
    fix k
    show "map_of (rev (p # kvs)) k = map_of (p # kvs) k"
      using IH n by (cases p) (auto simp: map_add_def split: option.splits)
  qed
qed

lemma decimal_nonempty: "decimal n \<noteq> []"
  by (subst decimal.simps) simp

lemma decimal_last: "last (decimal n) = digit_char (n mod 10)"
  by (subst decimal.simps) simp

lemma decimal_butlast:
  "butlast (decimal n) = (if 10 \<le> n then decimal (n div 10) else [])"
  by (subst decimal.simps) simp

lemma digit_inj: "a < 10 \<Longrightarrow> b < 10 \<Longrightarrow> digit_char a = digit_char b \<Longrightarrow> a = b"
  by (simp add: digit_char_def char_of_eq_iff take_bit_nat_eq_self)

lemma decimal_inj: "decimal m = decimal n \<Longrightarrow> m = n"
proof (induction m arbitrary: n rule: decimal.induct)
  case (1 m)
  from "1.prems" have l: "last (decimal m) = last (decimal n)"
    and b: "butlast (decimal m) = butlast (decimal n)" by simp_all
  from l have md: "m mod 10 = n mod 10"
    unfolding decimal_last by (intro digit_inj) auto
  show ?case
  proof (cases "10 \<le> m")
    case False
    with b have "\<not> 10 \<le> n"
      using decimal_nonempty[of "n div 10"]
      by (auto simp: decimal_butlast split: if_splits)
    with False md show ?thesis by simp
  next
    case True
    with b have n: "10 \<le> n" and e: "decimal (m div 10) = decimal (n div 10)"
      using decimal_nonempty[of "m div 10"]
      by (auto simp: decimal_butlast split: if_splits)
    from "1.IH"[OF True e] have "m div 10 = n div 10" .
    with md show ?thesis by (metis div_mult_mod_eq)
  qed
qed

lemma distinct_index_keys: "distinct (map decimal [0..<n])"
  by (auto simp: distinct_map inj_on_def dest: decimal_inj)

lemma map_of_clean_props:
  "distinct (map fst kvs) \<Longrightarrow>
   map_of (clean_props kvs) k =
     (case map_of kvs k of
        None \<Rightarrow> None
      | Some v \<Rightarrow> if cleaned v = JUndefined then None else Some (cleaned v))"
proof (induction kvs)
  case Nil
  then show ?case by simp
next
  case (Cons p kvs)
  then have "fst p \<notin> fst ` set kvs" and d: "distinct (map fst kvs)" by auto
  then have n: "map_of kvs (fst p) = None" by (simp add: map_of_eq_None_iff)
  show ?case
  proof (cases "k = fst p")
    case True
    then show ?thesis using Cons.IH[OF d] n
      by (cases p) (auto simp: Let_def cleaned_def)
  next
    case False
    then show ?thesis using Cons.IH[OF d]
      by (cases p) (auto simp: Let_def cleaned_def)
  qed
qed

lemma own_cleanEmptyObject:
  assumes "keys_distinct v"
  shows "own (cleanEmptyObject v) k = cleaned (own v k)"
proof (cases v)
  case (JObj kvs)
  then show ?thesis using assms map_of_clean_props[of kvs k]
    by (auto simp: cleaned_def split: option.splits)
qed (use assms in \<open>simp_all add: cleaned_def\<close>)

lemma own_cleaned:
  assumes "keys_distinct v"
  shows "own (cleaned v) k = cleaned (own v k)"
  using own_cleanEmptyObject[OF assms, of k]
  by (auto simp: cleaned_def)

lemma valid_keys_distinct: "valid v \<Longrightarrow> keys_distinct v"
  by (cases v) auto

lemma valid_own: "valid v \<Longrightarrow> valid (own v k)"
  by (cases v) (auto simp: list_all_iff split: option.splits dest: map_of_SomeD)

lemma keys_distinct_spread: "keys_distinct v \<Longrightarrow> distinct (map fst (spread v))"
  by (cases v) (auto simp: distinct_index_keys)

lemma cleaned_JStr [simp]: "cleaned (JStr s) = JStr s"
  by (simp add: cleaned_def)

lemma cleaned_JUndefined [simp]: "cleaned JUndefined = JUndefined"
  by (simp add: cleaned_def)


lemma map_of_assign: "map_of (assign acc kvs) = map_of acc ++ map_of (rev kvs)"
proof (induction kvs arbitrary: acc)
  case Nil
  then show ?case by (simp add: assign_def)
next
  case (Cons p kvs)
  have "assign acc (p # kvs) = assign (define_property (fst p) (snd p) acc) kvs"
    by (cases p) (simp add: assign_def)
  then show ?case using Cons[of "define_property (fst p) (snd p) acc"]
    by (auto simp: map_of_define_property map_add_def fun_eq_iff split: option.splits)
qed

lemma distinct_assign: "distinct (map fst acc) \<Longrightarrow> distinct (map fst (assign acc kvs))"
  by (induction kvs arbitrary: acc) (auto simp: assign_def distinct_define_property)

lemma map_of_assign_distinct:
  "distinct (map fst kvs) \<Longrightarrow>
   map_of (assign acc kvs) k = (case map_of kvs k of None \<Rightarrow> map_of acc k | Some v \<Rightarrow> Some v)"
  by (simp add: map_of_assign map_of_rev_distinct map_add_def)

section \<open>Properties of storing an edited border\<close>

lemma split_side_step:
  assumes "wf_colors colors" "\<not> nullish newBorder"
  shows "split_side colors newBorder acc side = Inr (split_step colors newBorder acc side)"
proof -
  from getMultiOriginColor_total[OF assms(1), of JUndefined "own (own newBorder side) ''color''"]
  obtain r where "getMultiOriginColor colors JUndefined (own (own newBorder side) ''color'') = Inr r"
    "\<not> nullish r" by blast
  then show ?thesis using assms(2)
    by (cases acc)
       (simp add: split_side_def split_step_def side_matches_def literal_slug_def bind_r_def get_def)
qed

lemma split_loop:
  assumes "wf_colors colors" "\<not> nullish newBorder"
  shows "forEach_r (split_side colors newBorder) sides acc =
         Inr (foldl (split_step colors newBorder) acc sides)"
  by (rule forEach_r_foldl) (rule split_side_step[OF assms])

lemma onBorderChange_split:
  assumes "wf_colors colors" "hsb newBorder" "\<not> nullish newBorder"
  shows "onBorderChange hsb style colors newBorder =
     Inr (JObj
       [(''style'', new_style style
           (map (\<lambda>(side, props). (side, JObj props))
              (fst (foldl (split_step colors newBorder) (split_init newBorder, []) borderSides)))),
        (''borderColor'', JUndefined),
        (''sideBorderColors'',
           JObj (snd (foldl (split_step colors newBorder) (split_init newBorder, []) borderSides)))])"
proof -
  have i: "[(''top'', spread (own newBorder ''top'')), (''right'', spread (own newBorder ''right'')),
            (''bottom'', spread (own newBorder ''bottom'')), (''left'', spread (own newBorder ''left''))]
           = split_init newBorder"
    by (simp add: split_init_def borderSides_def)
  show ?thesis
    using assms(2,3)
    by (simp add: onBorderChange_def get_def bind_r_def split_loop[OF assms(1,3)] new_style_def
          split_beta i)
qed

lemma onBorderChange_flat:
  assumes "wf_colors colors" "\<not> hsb newBorder"
  shows "onBorderChange hsb style colors newBorder =
     Inr (JObj
       [(''style'', new_style style
           (if flat_matches colors newBorder
            then AList.update ''color'' JUndefined (spread newBorder) else spread newBorder)),
        (''borderColor'',
           if flat_matches colors newBorder then literal_slug colors (own newBorder ''color'')
           else JUndefined),
        (''sideBorderColors'', JUndefined)])"
proof -
  from getMultiOriginColor_total[OF assms(1), of JUndefined "own newBorder ''color''"]
  obtain r where "getMultiOriginColor colors JUndefined (own newBorder ''color'') = Inr r"
    "\<not> nullish r" by blast
  then show ?thesis using assms(2)
    by (simp add: onBorderChange_def get_def bind_r_def new_style_def flat_matches_def literal_slug_def)
qed

text \<open>Whatever the origins, a result of \<^const>\<open>onBorderChange\<close> has this shape.\<close>

lemma onBorderChange_shape:
  assumes "onBorderChange hsb style colors newBorder = Inr u"
  shows "\<exists>nbs bc sbc. u = JObj [(''style'', new_style style nbs), (''borderColor'', bc), (''sideBorderColors'', sbc)]
           \<and> (hsb newBorder \<longrightarrow> (\<exists>m. sbc = JObj m) \<and> bc = JUndefined)"
  using assms
  by (auto simp: onBorderChange_def bind_r_def new_style_def split: sum.splits if_splits prod.splits)

lemma map_fst_map_entry: "map fst (AList.map_entry k f xs) = map fst xs"
  by (induction xs) auto

lemma split_fold_keys:
  "map fst (fst (foldl (split_step colors nb) acc sides)) = map fst (fst acc)"
  by (induction sides arbitrary: acc) (auto simp: split_step_def map_fst_map_entry)

lemma split_fold_nomatch:
  "\<forall>side\<in>set sides. \<not> side_matches colors nb side \<Longrightarrow>
   foldl (split_step colors nb) acc sides = acc"
  by (induction sides arbitrary: acc) (auto simp: split_step_def)

lemma split_fold_snd:
  "map_of (snd (foldl (split_step colors nb) acc sides)) k =
     (if k \<in> set sides \<and> side_matches colors nb k
      then Some (literal_slug colors (own (own nb k) ''color''))
      else map_of (snd acc) k)"
  by (induction sides arbitrary: acc) (auto simp: split_step_def update_conv')

lemma split_fold_fst:
  "distinct sides \<Longrightarrow>
   map_of (fst (foldl (split_step colors nb) acc sides)) k =
     (if k \<in> set sides \<and> side_matches colors nb k
      then map_option (AList.update ''color'' JUndefined) (map_of (fst acc) k)
      else map_of (fst acc) k)"
proof (induction sides arbitrary: acc)
  case Nil
  then show ?case by simp
next
  case (Cons s sides)
  then have d: "distinct sides" and n: "s \<notin> set sides" by auto
  show ?case
    using Cons.IH[OF d, of "split_step colors nb acc s"] n
    by (auto simp: split_step_def map_of_map_entry split: option.splits)
qed

lemma map_of_split_init:
  "map_of (split_init nb) k = (if k \<in> set borderSides then Some (spread (own nb k)) else None)"
  by (simp add: split_init_def map_of_map_restrict restrict_map_def)

lemma map_fst_split_init: "map fst (split_init nb) = borderSides"
  by (simp add: split_init_def comp_def)

lemma distinct_borderSides: "distinct borderSides"
  by (simp add: borderSides_def)


lemma map_fst_split_styles: "map fst (split_styles colors nb) = borderSides"
  by (simp add: split_styles_def split_fold_keys map_fst_split_init comp_def split_beta)

lemma map_of_split_styles:
  "map_of (split_styles colors nb) k =
     (if k \<in> set borderSides
      then Some (JObj (if side_matches colors nb k
                       then AList.update ''color'' JUndefined (spread (own nb k))
                       else spread (own nb k)))
      else None)"
  by (simp add: split_styles_def map_of_map split_fold_fst[OF distinct_borderSides] map_of_split_init)

text \<open>Lookups in the new style object.\<close>

lemma new_style_border:
  assumes "valid style"
  shows "own (new_style style nbs) ''border'' =
         cleaned (JObj (assign [(''radius'', own (own style ''border'') ''radius'')] nbs))"
proof -
  have "distinct (map fst (AList.update ''border''
        (JObj (assign [(''radius'', own (own style ''border'') ''radius'')] nbs)) (spread style)))"
    using assms by (intro distinct_update keys_distinct_spread valid_keys_distinct)
  then show ?thesis
    unfolding new_style_def
    by (subst own_cleanEmptyObject) (simp_all add: update_conv')
qed

lemma new_style_border_prop:
  assumes "valid style"
  shows "own (own (new_style style nbs) ''border'') k =
         cleaned (case map_of (rev nbs) k of
                    None \<Rightarrow> if k = ''radius'' then own (own style ''border'') ''radius'' else JUndefined
                  | Some v \<Rightarrow> v)"
proof -
  have "keys_distinct (JObj (assign [(''radius'', own (own style ''border'') ''radius'')] nbs))"
    by (simp add: distinct_assign)
  then show ?thesis
    unfolding new_style_border[OF assms]
    by (subst own_cleaned) (auto simp: map_of_assign map_add_def split: option.splits)
qed

lemma new_style_normalized: "normalized (new_style style nbs)"
  by (simp add: new_style_def clean_props_normalized)

lemma onBorderChange_split':
  assumes "wf_colors colors" "hsb newBorder" "\<not> nullish newBorder"
  shows "onBorderChange hsb style colors newBorder =
     Inr (JObj
       [(''style'', new_style style (split_styles colors newBorder)),
        (''borderColor'', JUndefined),
        (''sideBorderColors'',
           JObj (snd (foldl (split_step colors newBorder) (split_init newBorder, []) borderSides)))])"
  using onBorderChange_split[where hsb=hsb and newBorder=newBorder, OF assms]
  by (simp add: split_styles_def)

lemma onBorderChange_returns:
  assumes "wf_colors colors" "hsb newBorder \<longrightarrow> \<not> nullish newBorder"
  shows "\<exists>u. onBorderChange hsb style colors newBorder = Inr u"
  using onBorderChange_split[where hsb=hsb and newBorder=newBorder and style=style, OF assms(1)]
    onBorderChange_flat[where hsb=hsb and newBorder=newBorder and style=style, OF assms(1)] assms(2)
  by (cases "hsb newBorder") auto

lemma own_JStr_obj: "own v k = JStr c \<Longrightarrow> valid v \<Longrightarrow> \<exists>kvs. v = JObj kvs"
  by (cases v) auto

lemma split_side_color:
  assumes "valid style" "valid newBorder" "side \<in> set borderSides"
    and c: "own (own newBorder side) ''color'' = JStr c"
  shows "own (own (own (new_style style (split_styles colors newBorder)) ''border'') side) ''color'' =
         (if side_matches colors newBorder side then JUndefined else JStr c)"
proof -
  from own_JStr_obj[OF c valid_own[OF assms(2)]]
  obtain p where p: "own newBorder side = JObj p" by blast
  have "valid (JObj p)" using valid_own[OF assms(2), of side] p by simp
  then have dp: "distinct (map fst p)" by simp
  let ?q = "if side_matches colors newBorder side then AList.update ''color'' JUndefined p else p"
  have dq: "keys_distinct (JObj ?q)" using dp by (simp add: distinct_update)
  have "map_of (rev (split_styles colors newBorder)) side = Some (JObj ?q)"
    using assms(3) p
    by (simp add: map_of_rev_distinct map_fst_split_styles distinct_borderSides map_of_split_styles)
  then have "own (own (new_style style (split_styles colors newBorder)) ''border'') side = cleaned (JObj ?q)"
    by (simp add: new_style_border_prop[OF assms(1)])
  then have "own (own (own (new_style style (split_styles colors newBorder)) ''border'') side) ''color''
      = cleaned (own (JObj ?q) ''color'')"
    using own_cleaned[OF dq, of "''color''"] by simp
  also have "\<dots> = (if side_matches colors newBorder side then JUndefined else JStr c)"
    using c p by (auto simp: update_conv' split: option.splits)
  finally show ?thesis .
qed

lemma flat_color:
  assumes "valid style" "valid newBorder"
    and c: "own newBorder ''color'' = JStr c"
  shows "own (own (new_style style
            (if flat_matches colors newBorder
             then AList.update ''color'' JUndefined (spread newBorder) else spread newBorder))
          ''border'') ''color'' =
         (if flat_matches colors newBorder then JUndefined else JStr c)"
proof -
  from own_JStr_obj[OF c assms(2)] obtain p where p: "newBorder = JObj p" by blast
  then have dp: "distinct (map fst p)" using assms(2) by simp
  let ?q = "if flat_matches colors newBorder then AList.update ''color'' JUndefined p else p"
  have "distinct (map fst ?q)" using dp by (simp add: distinct_update)
  then have "map_of (rev ?q) ''color'' = map_of ?q ''color''"
    by (simp only: map_of_rev_distinct)
  also have "\<dots> = Some (if flat_matches colors newBorder then JUndefined else JStr c)"
    using c p by (auto simp: update_conv' split: option.splits)
  finally show ?thesis
    using p by (simp add: new_style_border_prop[OF assms(1)] split: if_splits)
qed


section \<open>The claims about storing an edited border\<close>

lemmas eval_defs = onBorderChange_def hasSplitBorders_def borderSides_def split_side_def
  getMultiOriginColor_def getColorByProperty_def bind_r_def get_def nullish_def assign_def
  define_property_def create_property_def array_index_def is_digit_def
  theme_def

text \<open>
  C6. \<^verbatim>\<open>cleanEmptyObject\<close> is modelled from the spec. Whenever
  \<^const>\<open>onBorderChange\<close> returns, the style it hands to \<^verbatim>\<open>setAttributes\<close> is
  normalized: no property of it, at any depth of nested objects, is \<^verbatim>\<open>undefined\<close>
  or the empty object. It does return on well-formed origins, for every new border
  (one that \<^verbatim>\<open>hasSplitBorders\<close> accepts must not be \<^verbatim>\<open>undefined\<close> or
  \<^verbatim>\<open>null\<close>).
\<close>

theorem onEdit_style_normalized:
  "(\<forall>u. onBorderChange hsb style colors newBorder = Inr u \<longrightarrow> normalized (own u ''style'')) \<and>
   (wf_colors colors \<and> (hsb newBorder \<longrightarrow> \<not> nullish newBorder) \<longrightarrow>
      (\<exists>u. onBorderChange hsb style colors newBorder = Inr u \<and> normalized (own u ''style'')))"
proof -
  have a: "normalized (own u ''style'')" if "onBorderChange hsb style colors newBorder = Inr u" for u
    using onBorderChange_shape[OF that] by (auto simp: new_style_normalized)
  with onBorderChange_returns[of colors hsb newBorder style] show ?thesis by blast
qed

text \<open>A split border whose top colour is the palette's, over a stored radius: the emptied
  side objects are dropped and the radius stays.\<close>

theorem onEdit_style_normalized_witness:
  "(\<exists>u. onBorderChange hasSplitBorders (JObj [(''border'', JObj [(''radius'', JStr ''5px'')])]) theme
          (JObj [(''top'', JObj [(''color'', JStr ''#111111'')]), (''right'', JObj [])]) = Inr u \<and>
        normalized (own u ''style'')) \<and>
   onBorderChange hasSplitBorders (JObj [(''border'', JObj [(''radius'', JStr ''5px'')])]) theme
     (JObj [(''top'', JObj [(''color'', JStr ''#111111'')]), (''right'', JObj [])])
   = Inr (JObj [(''style'', JObj [(''border'', JObj [(''radius'', JStr ''5px'')])]),
                (''borderColor'', JUndefined),
                (''sideBorderColors'', JObj [(''top'', JStr ''primary'')])])"
proof -
  have n: "hasSplitBorders (JObj [(''top'', JObj [(''color'', JStr ''#111111'')]), (''right'', JObj [])])
      \<longrightarrow> \<not> nullish (JObj [(''top'', JObj [(''color'', JStr ''#111111'')]), (''right'', JObj [])])"
    by (simp add: nullish_def)
  have e: "onBorderChange hasSplitBorders (JObj [(''border'', JObj [(''radius'', JStr ''5px'')])]) theme
     (JObj [(''top'', JObj [(''color'', JStr ''#111111'')]), (''right'', JObj [])])
   = Inr (JObj [(''style'', JObj [(''border'', JObj [(''radius'', JStr ''5px'')])]),
                (''borderColor'', JUndefined),
                (''sideBorderColors'', JObj [(''top'', JStr ''primary'')])])"
    by (simp add: eval_defs)
  show ?thesis
    using onEdit_style_normalized[of hasSplitBorders
        "JObj [(''border'', JObj [(''radius'', JStr ''5px'')])]" theme
        "JObj [(''top'', JObj [(''color'', JStr ''#111111'')]), (''right'', JObj [])]"]
      theme_wf n e
    by blast
qed

text \<open>
  C10. In the split branch \<^verbatim>\<open>newSideBorderColors\<close> starts as \<^verbatim>\<open>{}\<close>, so whenever
  \<^const>\<open>onBorderChange\<close> returns for a border that \<^verbatim>\<open>hasSplitBorders\<close> accepts,
  the \<^verbatim>\<open>sideBorderColors\<close> it hands to \<^verbatim>\<open>setAttributes\<close> is an object, the
  empty one when no side's colour matches a palette entry. \<^const>\<open>hasBorderValue\<close>
  throws on attributes that are \<^verbatim>\<open>undefined\<close> or \<^verbatim>\<open>null\<close> and is otherwise the
  disjunction of \<^verbatim>\<open>isDefinedBorder\<close> on the stored border, the truthiness of
  \<^verbatim>\<open>borderColor\<close> and the truthiness of \<^verbatim>\<open>sideBorderColors\<close>. On attributes
  holding the update it is therefore true whatever \<^verbatim>\<open>isDefinedBorder\<close> says, the
  object being truthy; on the same attributes without that object it is what
  \<^verbatim>\<open>isDefinedBorder\<close> says of the border, \<^verbatim>\<open>borderColor\<close> being
  \<^verbatim>\<open>undefined\<close> in the split branch.
\<close>

theorem onEdit_split_side_colors_defined:
  assumes "hsb newBorder"
  shows "(\<forall>u. onBorderChange hsb style colors newBorder = Inr u \<longrightarrow>
            (\<exists>m. own u ''sideBorderColors'' = JObj m) \<and>
            hasBorderValue idb u = Inr True \<and>
            hasBorderValue idb (JObj (AList.update ''sideBorderColors'' JUndefined (spread u)))
              = Inr (idb (own (own u ''style'') ''border''))) \<and>
         (wf_colors colors \<and> \<not> nullish newBorder \<longrightarrow>
            (\<exists>u m. onBorderChange hsb style colors newBorder = Inr u \<and>
               own u ''sideBorderColors'' = JObj m \<and>
               ((\<forall>side\<in>set borderSides. \<not> side_matches colors newBorder side) \<longrightarrow> m = []) \<and>
               hasBorderValue idb u = Inr True)) \<and>
         (\<forall>attributes. hasBorderValue idb attributes =
            (if nullish attributes then Inl TypeError
             else Inr (idb (own (own attributes ''style'') ''border'') \<or>
                       truthy (own attributes ''borderColor'') \<or>
                       truthy (own attributes ''sideBorderColors''))))"
proof -
  have c: "hasBorderValue idb attributes =
            (if nullish attributes then Inl TypeError
             else Inr (idb (own (own attributes ''style'') ''border'') \<or>
                       truthy (own attributes ''borderColor'') \<or>
                       truthy (own attributes ''sideBorderColors'')))" for attributes
    by (simp add: hasBorderValue_def bind_r_def get_def)
  have a: "(\<exists>m. own u ''sideBorderColors'' = JObj m) \<and> hasBorderValue idb u = Inr True \<and>
           hasBorderValue idb (JObj (AList.update ''sideBorderColors'' JUndefined (spread u)))
              = Inr (idb (own (own u ''style'') ''border''))"
    if "onBorderChange hsb style colors newBorder = Inr u" for u
    using onBorderChange_shape[OF that] assms
    by (auto simp: c nullish_def)
  have b: "\<exists>u m. onBorderChange hsb style colors newBorder = Inr u \<and>
               own u ''sideBorderColors'' = JObj m \<and>
               ((\<forall>side\<in>set borderSides. \<not> side_matches colors newBorder side) \<longrightarrow> m = []) \<and>
               hasBorderValue idb u = Inr True"
    if w: "wf_colors colors" "\<not> nullish newBorder"
  proof -
    let ?u = "JObj
       [(''style'', new_style style (split_styles colors newBorder)),
        (''borderColor'', JUndefined),
        (''sideBorderColors'',
           JObj (snd (foldl (split_step colors newBorder) (split_init newBorder, []) borderSides)))]"
    have u: "onBorderChange hsb style colors newBorder = Inr ?u"
      by (rule onBorderChange_split'[where hsb=hsb and newBorder=newBorder, OF w(1) assms w(2)])
    have "(\<forall>side\<in>set borderSides. \<not> side_matches colors newBorder side) \<longrightarrow>
          snd (foldl (split_step colors newBorder) (split_init newBorder, []) borderSides) = []"
      by (simp add: split_fold_nomatch)
    moreover have "own ?u ''sideBorderColors'' =
        JObj (snd (foldl (split_step colors newBorder) (split_init newBorder, []) borderSides))"
      by simp
    ultimately show ?thesis using u a[OF u] by blast
  qed
  show ?thesis using a b c by blast
qed

text \<open>A split border whose only colour is not in the palette, and an
  \<^verbatim>\<open>isDefinedBorder\<close> that is never true: the update holds the empty object and
  \<^const>\<open>hasBorderValue\<close> is true on it, and false once the object is taken away.\<close>

theorem onEdit_split_side_colors_defined_witness:
  "onBorderChange hasSplitBorders JUndefined theme
     (JObj [(''top'', JObj [(''color'', JStr ''#222222'')]), (''right'', JObj [])])
   = Inr (JObj [(''style'', JObj [(''border'', JObj [(''top'', JObj [(''color'', JStr ''#222222'')])])]),
                (''borderColor'', JUndefined), (''sideBorderColors'', JObj [])]) \<and>
   hasBorderValue (\<lambda>border. False)
     (JObj [(''style'', JObj [(''border'', JObj [(''top'', JObj [(''color'', JStr ''#222222'')])])]),
            (''borderColor'', JUndefined), (''sideBorderColors'', JObj [])])
   = Inr True \<and>
   hasBorderValue (\<lambda>border. False)
     (JObj [(''style'', JObj [(''border'', JObj [(''top'', JObj [(''color'', JStr ''#222222'')])])]),
            (''borderColor'', JUndefined), (''sideBorderColors'', JUndefined)])
   = Inr False"
proof -
  have h: "hasSplitBorders (JObj [(''top'', JObj [(''color'', JStr ''#222222'')]), (''right'', JObj [])])"
    by (simp add: hasSplitBorders_def borderSides_def)
  have e: "onBorderChange hasSplitBorders JUndefined theme
     (JObj [(''top'', JObj [(''color'', JStr ''#222222'')]), (''right'', JObj [])])
   = Inr (JObj [(''style'', JObj [(''border'', JObj [(''top'', JObj [(''color'', JStr ''#222222'')])])]),
                (''borderColor'', JUndefined), (''sideBorderColors'', JObj [])])"
    by (simp add: eval_defs)
  show ?thesis
    using onEdit_split_side_colors_defined[where hsb=hasSplitBorders, OF h,
        of JUndefined theme "\<lambda>border. False"] e
    by (simp add: nullish_def)
qed

text \<open>
  C4. \<^verbatim>\<open>cleanEmptyObject\<close> is modelled from the spec; the origins are well-formed
  and the objects valid. In the split case, for each of the four sides whose colour is a
  non-empty string: when the literal search (\<^verbatim>\<open>getMultiOriginColor\<close> with
  \<^verbatim>\<open>customColor\<close> only) yields a slug, the slug is recorded for that side in the
  \<^verbatim>\<open>sideBorderColors\<close> update and the side's colour is gone from the style update;
  otherwise the side is not in the \<^verbatim>\<open>sideBorderColors\<close> update and its literal
  colour is in the style update as it was. In the flat case the same holds of the one
  colour, with the slug in the \<^verbatim>\<open>borderColor\<close> update.
\<close>

theorem onEdit_names_palette_colors:
  assumes "wf_colors colors" and "valid style" and "valid newBorder"
  shows
    "(hsb newBorder \<and> \<not> nullish newBorder \<longrightarrow>
        (\<exists>u m. onBorderChange hsb style colors newBorder = Inr u \<and>
           own u ''sideBorderColors'' = JObj m \<and>
           (\<forall>side\<in>set borderSides. \<forall>c.
              own (own newBorder side) ''color'' = JStr c \<and> c \<noteq> [] \<longrightarrow>
                (if truthy (literal_slug colors (JStr c))
                 then map_of m side = Some (literal_slug colors (JStr c)) \<and>
                      own (own (own (own u ''style'') ''border'') side) ''color'' = JUndefined
                 else map_of m side = None \<and>
                      own (own (own (own u ''style'') ''border'') side) ''color'' = JStr c)))) \<and>
     (\<not> hsb newBorder \<longrightarrow>
        (\<exists>u. onBorderChange hsb style colors newBorder = Inr u \<and>
           own u ''sideBorderColors'' = JUndefined \<and>
           (\<forall>c. own newBorder ''color'' = JStr c \<and> c \<noteq> [] \<longrightarrow>
              (if truthy (literal_slug colors (JStr c))
               then own u ''borderColor'' = literal_slug colors (JStr c) \<and>
                    own (own (own u ''style'') ''border'') ''color'' = JUndefined
               else own u ''borderColor'' = JUndefined \<and>
                    own (own (own u ''style'') ''border'') ''color'' = JStr c))))"
proof -
  have split: "\<exists>u m. onBorderChange hsb style colors newBorder = Inr u \<and>
           own u ''sideBorderColors'' = JObj m \<and>
           (\<forall>side\<in>set borderSides. \<forall>c.
              own (own newBorder side) ''color'' = JStr c \<and> c \<noteq> [] \<longrightarrow>
                (if truthy (literal_slug colors (JStr c))
                 then map_of m side = Some (literal_slug colors (JStr c)) \<and>
                      own (own (own (own u ''style'') ''border'') side) ''color'' = JUndefined
                 else map_of m side = None \<and>
                      own (own (own (own u ''style'') ''border'') side) ''color'' = JStr c))"
    if h: "hsb newBorder" "\<not> nullish newBorder"
  proof -
    let ?m = "snd (foldl (split_step colors newBorder) (split_init newBorder, []) borderSides)"
    let ?u = "JObj
       [(''style'', new_style style (split_styles colors newBorder)),
        (''borderColor'', JUndefined), (''sideBorderColors'', JObj ?m)]"
    have u: "onBorderChange hsb style colors newBorder = Inr ?u"
      by (rule onBorderChange_split'[where hsb=hsb and newBorder=newBorder, OF assms(1) h])
    have o: "own ?u ''sideBorderColors'' = JObj ?m" by simp
    have "if truthy (literal_slug colors (JStr c))
          then map_of ?m side = Some (literal_slug colors (JStr c)) \<and>
               own (own (own (own ?u ''style'') ''border'') side) ''color'' = JUndefined
          else map_of ?m side = None \<and>
               own (own (own (own ?u ''style'') ''border'') side) ''color'' = JStr c"
      if s: "side \<in> set borderSides" and c: "own (own newBorder side) ''color'' = JStr c" "c \<noteq> []"
      for side c
    proof -
      have m: "side_matches colors newBorder side = truthy (literal_slug colors (JStr c))"
        using c by (simp add: side_matches_def)
      show ?thesis
        using split_side_color[OF assms(2,3) s c(1), of colors] s c(1)
        by (simp add: split_fold_snd m)
    qed
    then have all: "\<forall>side\<in>set borderSides. \<forall>c.
              own (own newBorder side) ''color'' = JStr c \<and> c \<noteq> [] \<longrightarrow>
                (if truthy (literal_slug colors (JStr c))
                 then map_of ?m side = Some (literal_slug colors (JStr c)) \<and>
                      own (own (own (own ?u ''style'') ''border'') side) ''color'' = JUndefined
                 else map_of ?m side = None \<and>
                      own (own (own (own ?u ''style'') ''border'') side) ''color'' = JStr c)"
      by blast
    show ?thesis
      by (rule exI[of _ ?u], rule exI[of _ ?m], intro conjI) (fact u, fact o, fact all)
  qed
  have flat: "\<exists>u. onBorderChange hsb style colors newBorder = Inr u \<and>
           own u ''sideBorderColors'' = JUndefined \<and>
           (\<forall>c. own newBorder ''color'' = JStr c \<and> c \<noteq> [] \<longrightarrow>
              (if truthy (literal_slug colors (JStr c))
               then own u ''borderColor'' = literal_slug colors (JStr c) \<and>
                    own (own (own u ''style'') ''border'') ''color'' = JUndefined
               else own u ''borderColor'' = JUndefined \<and>
                    own (own (own u ''style'') ''border'') ''color'' = JStr c))"
    if h: "\<not> hsb newBorder"
  proof -
    have m: "flat_matches colors newBorder = truthy (literal_slug colors (JStr c))"
      if "own newBorder ''color'' = JStr c" "c \<noteq> []" for c
      using that by (simp add: flat_matches_def)
    show ?thesis
      unfolding onBorderChange_flat[where hsb=hsb and newBorder=newBorder, OF assms(1) h]
      using flat_color[OF assms(2,3), of _ colors] m
      by auto
  qed
  show ?thesis using split flat by blast
qed

text \<open>The example of the spec, a split border whose top colour is the palette's, and a
  flat border with the same colour over a stored radius.\<close>

theorem onEdit_names_palette_colors_witness:
  "onBorderChange hasSplitBorders JUndefined theme
     (JObj [(''top'', JObj [(''color'', JStr ''#111111'')]), (''right'', JObj []),
            (''bottom'', JObj []), (''left'', JObj [])])
   = Inr (JObj [(''style'', JObj []), (''borderColor'', JUndefined),
                (''sideBorderColors'', JObj [(''top'', JStr ''primary'')])]) \<and>
   onBorderChange hasSplitBorders (JObj [(''border'', JObj [(''radius'', JStr ''5px'')])]) theme
     (JObj [(''color'', JStr ''#111111''), (''width'', JStr ''1px'')])
   = Inr (JObj [(''style'', JObj [(''border'',
                   JObj [(''radius'', JStr ''5px''), (''width'', JStr ''1px'')])]),
                (''borderColor'', JStr ''primary''), (''sideBorderColors'', JUndefined)])"
proof -
  have v1: "valid JUndefined" by simp
  have v2: "valid (JObj [(''top'', JObj [(''color'', JStr ''#111111'')]), (''right'', JObj []),
            (''bottom'', JObj []), (''left'', JObj [])])" by simp
  have v3: "valid (JObj [(''border'', JObj [(''radius'', JStr ''5px'')])])" by simp
  have v4: "valid (JObj [(''color'', JStr ''#111111''), (''width'', JStr ''1px'')])" by simp
  have e1: "onBorderChange hasSplitBorders JUndefined theme
     (JObj [(''top'', JObj [(''color'', JStr ''#111111'')]), (''right'', JObj []),
            (''bottom'', JObj []), (''left'', JObj [])])
   = Inr (JObj [(''style'', JObj []), (''borderColor'', JUndefined),
                (''sideBorderColors'', JObj [(''top'', JStr ''primary'')])])"
    by (simp add: eval_defs)
  have e2: "onBorderChange hasSplitBorders (JObj [(''border'', JObj [(''radius'', JStr ''5px'')])]) theme
     (JObj [(''color'', JStr ''#111111''), (''width'', JStr ''1px'')])
   = Inr (JObj [(''style'', JObj [(''border'',
                   JObj [(''radius'', JStr ''5px''), (''width'', JStr ''1px'')])]),
                (''borderColor'', JStr ''primary''), (''sideBorderColors'', JUndefined)])"
    by (simp add: eval_defs)
  show ?thesis
    using onEdit_names_palette_colors[OF theme_wf v1 v2, of hasSplitBorders]
      onEdit_names_palette_colors[OF theme_wf v3 v4, of hasSplitBorders] e1 e2
    by simp
qed



section \<open>Hydrating, editing and hydrating again\<close>

lemma find_Some_set: "find P xs = Some x \<Longrightarrow> x \<in> set xs \<and> P x"
  by (induction xs) (auto split: if_splits)

lemma str_or_absent_truthy: "str_or_absent v \<Longrightarrow> truthy v \<Longrightarrow> \<exists>s. v = JStr s \<and> s \<noteq> []"
  by (cases v) auto

lemma str_or_absent_cleaned: "str_or_absent v \<Longrightarrow> cleaned v = v"
  by (cases v) (auto simp: cleaned_def)

lemma slug_determines_colorD:
  assumes "slug_determines_color colors" "e \<in> set (all_entries colors)"
  shows "str_or_absent (own e ''slug'')"
    and "e' \<in> set (all_entries colors) \<Longrightarrow> truthy (own e ''slug'') \<Longrightarrow>
         own e' ''slug'' = own e ''slug'' \<Longrightarrow> own e' ''color'' = own e ''color''"
  using assms unfolding slug_determines_color_def list_all_iff by blast+

lemma roundtrip_slug:
  assumes wf: "wf_colors colors" and sd: "slug_determines_color colors"
    and t: "truthy (literal_slug colors (JStr c))" and c: "c \<noteq> []"
  shows "named_color colors (literal_slug colors (JStr c)) = JStr c"
proof -
  have ls: "literal_slug colors (JStr c) =
      own (case lookup_by colors ''color'' (JStr c) of Some e \<Rightarrow> e | None \<Rightarrow> JObj [(''color'', JStr c)]) ''slug''"
    using c by (simp add: literal_slug_def getMultiOriginColor_wf[OF wf])
  with t obtain e where e: "lookup_by colors ''color'' (JStr c) = Some e"
    by (cases "lookup_by colors ''color'' (JStr c)") auto
  then have ein: "e \<in> set (all_entries colors)" and ec: "own e ''color'' = JStr c"
    using find_Some_set[of "\<lambda>x. strict_eq (own x ''color'') (JStr c)" "all_entries colors" e]
    by (auto simp: lookup_by_def)
  have s: "literal_slug colors (JStr c) = own e ''slug''" using ls e by simp
  have "str_or_absent (own e ''slug'')"
    by (rule slug_determines_colorD(1)[OF sd ein])
  with t s obtain ss where ss: "own e ''slug'' = JStr ss" "ss \<noteq> []"
    using str_or_absent_truthy[of "own e ''slug''"] by auto
  have "lookup_by colors ''slug'' (JStr ss) \<noteq> None"
    using ein ss by (auto simp: lookup_by_None)
  then obtain e' where e': "lookup_by colors ''slug'' (JStr ss) = Some e'" by auto
  then have e'in: "e' \<in> set (all_entries colors)" and e's: "own e' ''slug'' = JStr ss"
    using find_Some_set[of "\<lambda>x. strict_eq (own x ''slug'') (JStr ss)" "all_entries colors" e']
    by (auto simp: lookup_by_def)
  have "own e' ''color'' = own e ''color''"
    using ss e's by (intro slug_determines_colorD(2)[OF sd ein e'in]) simp_all
  then show ?thesis
    using s ss e' ec by (simp add: named_color_def getMultiOriginColor_wf[OF wf])
qed

lemma color_not_index: "''color'' \<noteq> decimal n"
proof
  assume "''color'' = decimal n"
  then have "last ''color'' = last (decimal n)" by simp
  then have "CHR ''r'' = (char_of (n mod 10 + 48) :: char)"
    by (simp add: decimal_last digit_char_def)
  then have "(of_char (CHR ''r'') :: nat) = of_char (char_of (n mod 10 + 48) :: char)"
    by simp
  then have "(114::nat) = (n mod 10 + 48) mod 256"
    by (simp only: of_char_of) simp
  moreover have b: "n mod 10 < 10" by simp
  then have "(n mod 10 + 48) mod 256 = n mod 10 + 48" by (intro mod_less) linarith
  ultimately have "n mod 10 = 66" by linarith
  with b show False by linarith
qed

lemma index_keys_color:
  "length ys = n \<Longrightarrow> map_of (zip (map decimal [0..<n]) ys) ''color'' = None"
  by (subst map_of_zip_is_None) (auto simp: color_not_index)

lemma field_color: "keys_distinct v \<Longrightarrow> field v ''color'' = own v ''color''"
  by (cases v) (simp_all add: field_def props_def index_keys_color)

lemma lookup_spread_color:
  "keys_distinct v \<Longrightarrow>
   (case map_of (spread v) ''color'' of None \<Rightarrow> JUndefined | Some x \<Rightarrow> x) = own v ''color''"
  using field_color[of v] by (simp add: field_def props_def)

lemma split_side_color_gen:
  assumes "valid style" "keys_distinct (own newBorder side)" "side \<in> set borderSides"
  shows "own (own (own (new_style style (split_styles colors newBorder)) ''border'') side) ''color'' =
         (if side_matches colors newBorder side then JUndefined
          else cleaned (own (own newBorder side) ''color''))"
proof -
  let ?p = "spread (own newBorder side)"
  have dp: "distinct (map fst ?p)" by (rule keys_distinct_spread[OF assms(2)])
  let ?q = "if side_matches colors newBorder side then AList.update ''color'' JUndefined ?p else ?p"
  have dq: "keys_distinct (JObj ?q)" using dp by (simp add: distinct_update)
  have "map_of (rev (split_styles colors newBorder)) side = Some (JObj ?q)"
    using assms(3)
    by (simp add: map_of_rev_distinct map_fst_split_styles distinct_borderSides map_of_split_styles)
  then have "own (own (new_style style (split_styles colors newBorder)) ''border'') side = cleaned (JObj ?q)"
    by (simp add: new_style_border_prop[OF assms(1)])
  then have "own (own (own (new_style style (split_styles colors newBorder)) ''border'') side) ''color''
      = cleaned (own (JObj ?q) ''color'')"
    using own_cleaned[OF dq, of "''color''"] by simp
  also have "\<dots> = (if side_matches colors newBorder side then JUndefined
          else cleaned (own (own newBorder side) ''color''))"
    using lookup_spread_color[OF assms(2)] by (simp add: update_conv')
  finally show ?thesis .
qed

lemma flat_color_gen:
  assumes "valid style" "keys_distinct newBorder"
  shows "own (own (new_style style
            (if flat_matches colors newBorder
             then AList.update ''color'' JUndefined (spread newBorder) else spread newBorder))
          ''border'') ''color'' =
         (if flat_matches colors newBorder then JUndefined else cleaned (own newBorder ''color''))"
proof -
  let ?p = "spread newBorder"
  have dp: "distinct (map fst ?p)" by (rule keys_distinct_spread[OF assms(2)])
  let ?q = "if flat_matches colors newBorder then AList.update ''color'' JUndefined ?p else ?p"
  have "distinct (map fst ?q)" using dp by (simp add: distinct_update)
  then have "map_of (rev ?q) ''color'' = map_of ?q ''color''"
    by (simp only: map_of_rev_distinct)
  then show ?thesis
    using lookup_spread_color[OF assms(2)]
    by (simp add: new_style_border_prop[OF assms(1)] update_conv' split: if_splits)
qed

text \<open>The hydrated border has each key once when the attributes do.\<close>

lemma hydrate_step_distinct:
  "distinct (map fst h) \<Longrightarrow> distinct (map fst (hydrate_step colors h entry))"
  by (simp add: hydrate_step_def distinct_define_property)

lemma hydrate_fold_distinct:
  "distinct (map fst h) \<Longrightarrow> distinct (map fst (foldl (hydrate_step colors) h es))"
  by (induction es arbitrary: h) (auto simp: hydrate_step_distinct)

lemma valid_spread: "valid v \<Longrightarrow> (k, x) \<in> set (spread v) \<Longrightarrow> valid x"
  by (cases v) (auto simp: list_all_iff dest!: set_zip_rightD)

lemma valid_field: "valid v \<Longrightarrow> valid (field v k)"
  by (auto simp: field_def props_def split: option.splits dest: map_of_SomeD valid_spread)

lemma own_spread_field: "own (JObj (spread v)) k = field v k"
  by (simp add: field_def props_def)

lemma hydrate_fold_own:
  assumes "distinct (map fst es)"
  shows "own (JObj (foldl (hydrate_step colors) h es)) side =
     (case map_of es side of
        None \<Rightarrow> own (JObj h) side
      | Some slug \<Rightarrow>
          if truthy (named_color colors slug)
          then JObj (AList.update ''color'' (named_color colors slug) (spread (own (JObj h) side)))
          else own (JObj h) side)"
  unfolding own.simps hydrate_fold_lookup[OF assms]
  by (auto split: option.splits)

lemma hydrated_keys_distinct:
  assumes "wf_colors colors" "valid attributes" "\<not> nullish attributes"
    and "getBorderObject attributes colors = Inr h"
    and np: "props (own attributes ''sideBorderColors'') ''__proto__'' = None"
  shows "keys_distinct h"
    and "side \<noteq> ''color'' \<Longrightarrow> keys_distinct (own h side)"
proof -
  let ?st = "stored_border attributes"
  let ?bc = "own attributes ''borderColor''"
  let ?sbc = "own attributes ''sideBorderColors''"
  have vst: "valid ?st" using assms(2) by (simp add: stored_border_def valid_own)
  have dst: "distinct (map fst (spread ?st))"
    by (intro keys_distinct_spread valid_keys_distinct vst)
  have dsbc: "distinct (map fst (spread ?sbc))"
    by (intro keys_distinct_spread valid_keys_distinct valid_own assms(2))
  have kf: "keys_distinct (field ?st k)" for k
    by (intro valid_keys_distinct valid_field vst)
  have ko: "keys_distinct (own ?st k)" for k
    by (intro valid_keys_distinct valid_own vst)
  consider (flat) "truthy ?bc" "truthy (named_color colors ?bc)"
    | (flat_none) "truthy ?bc" "\<not> truthy (named_color colors ?bc)"
    | (sides) "\<not> truthy ?bc" "truthy ?sbc"
    | (plain) "\<not> truthy ?bc" "\<not> truthy ?sbc"
    by blast
  then have "keys_distinct h \<and> (side \<noteq> ''color'' \<longrightarrow> keys_distinct (own h side))"
  proof cases
    case flat
    then have "h = JObj (AList.update ''color'' (named_color colors ?bc) (spread ?st))"
      using getBorderObject_flat[OF assms(1,3) flat(1)] assms(4) by simp
    then show ?thesis using dst kf[of side]
      by (simp add: distinct_update update_conv' own_spread_field[symmetric])
  next
    case flat_none
    then have "h = ?st"
      using getBorderObject_flat[OF assms(1,3) flat_none(1)] assms(4) by simp
    then show ?thesis using vst ko by (simp add: valid_keys_distinct)
  next
    case sides
    let ?H = "foldl (hydrate_step colors) (spread ?st) (spread ?sbc)"
    have h: "h = JObj ?H"
      using getBorderObject_sides[OF assms(1,3) sides np] assms(4) by simp
    have "own (JObj ?H) side = field ?st side \<or>
          (\<exists>c. own (JObj ?H) side = JObj (AList.update ''color'' c (spread (field ?st side))))"
      unfolding hydrate_fold_own[OF dsbc] own_spread_field
      by (auto split: option.splits)
    then have "keys_distinct (own (JObj ?H) side)"
      using kf[of side] keys_distinct_spread[OF kf[of side]]
      by (auto simp: distinct_update)
    then show ?thesis using h dst by (simp add: hydrate_fold_distinct)
  next
    case plain
    then have "h = ?st"
      using getBorderObject_plain[OF assms(3) plain] assms(4) by simp
    then show ?thesis using vst ko by (simp add: valid_keys_distinct)
  qed
  then show "keys_distinct h" and "side \<noteq> ''color'' \<Longrightarrow> keys_distinct (own h side)"
    by simp_all
qed

lemma split_fold_snd_distinct:
  "distinct (map fst (snd acc)) \<Longrightarrow>
   distinct (map fst (snd (foldl (split_step colors nb) acc sides)))"
  by (induction sides arbitrary: acc) (auto simp: split_step_def distinct_update)

lemma color_not_side: "side \<in> set borderSides \<Longrightarrow> side \<noteq> ''color''"
  by (auto simp: borderSides_def)

lemma field_cleaned_obj: "field (cleaned (JObj kvs)) k = own (cleaned (JObj kvs)) k"
  by (simp add: cleaned_def field_def props_def)

lemma roundtrip_flat:
  assumes wf: "wf_colors colors" and sd: "slug_determines_color colors"
    and vs: "valid style" and kd: "keys_distinct h1"
    and c1: "str_or_absent (own h1 ''color'')"
    and f: "\<not> hsb h1"
  shows "\<exists>u h2. onBorderChange hsb style colors h1 = Inr u \<and>
           getBorderObject u colors = Inr h2 \<and> own h2 ''color'' = own h1 ''color''"
proof (cases "flat_matches colors h1")
  case True
  then obtain cs where cs: "own h1 ''color'' = JStr cs" "cs \<noteq> []"
    using str_or_absent_truthy[OF c1] by (auto simp: flat_matches_def)
  with True have t: "truthy (literal_slug colors (JStr cs))" by (simp add: flat_matches_def)
  have rt: "named_color colors (literal_slug colors (JStr cs)) = JStr cs"
    by (rule roundtrip_slug[OF wf sd t cs(2)])
  let ?u = "JObj [(''style'', new_style style (AList.update ''color'' JUndefined (spread h1))),
                  (''borderColor'', literal_slug colors (JStr cs)),
                  (''sideBorderColors'', JUndefined)]"
  have u: "onBorderChange hsb style colors h1 = Inr ?u"
    using onBorderChange_flat[where hsb=hsb and newBorder=h1, OF wf f] True cs by simp
  have nu: "\<not> nullish ?u" by (simp add: nullish_def)
  have tb: "truthy (own ?u ''borderColor'')" using t by simp
  have "getBorderObject ?u colors =
      Inr (JObj (AList.update ''color'' (JStr cs) (spread (stored_border ?u))))"
    using getBorderObject_flat[OF wf nu tb] rt cs(2) by simp
  then show ?thesis using u cs by (auto simp: update_conv')
next
  case False
  let ?u = "JObj [(''style'', new_style style (spread h1)),
                  (''borderColor'', JUndefined), (''sideBorderColors'', JUndefined)]"
  have u: "onBorderChange hsb style colors h1 = Inr ?u"
    using onBorderChange_flat[where hsb=hsb and newBorder=h1, OF wf f] False by simp
  have "getBorderObject ?u colors = Inr (stored_border ?u)"
    by (intro getBorderObject_plain) (simp_all add: nullish_def)
  moreover have "own (stored_border ?u) ''color'' = own h1 ''color''"
    using flat_color_gen[OF vs kd, of colors] False str_or_absent_cleaned[OF c1]
    by (simp add: stored_border_def)
  ultimately show ?thesis using u by auto
qed

lemma roundtrip_split:
  assumes wf: "wf_colors colors" and sd: "slug_determines_color colors"
    and vs: "valid style"
    and kd: "\<And>side. side \<in> set borderSides \<Longrightarrow> keys_distinct (own h1 side)"
    and c1: "\<And>side. side \<in> set borderSides \<Longrightarrow> str_or_absent (own (own h1 side) ''color'')"
    and s: "hsb h1" and n: "\<not> nullish h1"
  shows "\<exists>u h2. onBorderChange hsb style colors h1 = Inr u \<and>
           getBorderObject u colors = Inr h2 \<and>
           (\<forall>side\<in>set borderSides. own (own h2 side) ''color'' = own (own h1 side) ''color'')"
proof -
  let ?m = "snd (foldl (split_step colors h1) (split_init h1, []) borderSides)"
  let ?S = "new_style style (split_styles colors h1)"
  let ?u = "JObj [(''style'', ?S), (''borderColor'', JUndefined), (''sideBorderColors'', JObj ?m)]"
  let ?st = "own ?S ''border''"
  let ?H = "foldl (hydrate_step colors) (spread ?st) ?m"
  have u: "onBorderChange hsb style colors h1 = Inr ?u"
    by (rule onBorderChange_split'[where hsb=hsb and newBorder=h1, OF wf s n])
  have dm: "distinct (map fst ?m)" by (intro split_fold_snd_distinct) simp
  have "getBorderObject ?u colors = Inr (JObj (foldl (hydrate_step colors)
          (spread (stored_border ?u)) (spread (own ?u ''sideBorderColors''))))"
    by (intro getBorderObject_sides[OF wf])
       (simp_all add: nullish_def props_def split_fold_snd proto_not_side)
  then have h2: "getBorderObject ?u colors = Inr (JObj ?H)"
    by (simp add: stored_border_def)
  have st: "own (JObj (spread ?st)) side = own ?st side" for side
    unfolding own_spread_field new_style_border[OF vs] by (rule field_cleaned_obj)
  have "own (own (JObj ?H) side) ''color'' = own (own h1 side) ''color''"
    if side: "side \<in> set borderSides" for side
  proof (cases "side_matches colors h1 side")
    case True
    then obtain cs where cs: "own (own h1 side) ''color'' = JStr cs" "cs \<noteq> []"
      using str_or_absent_truthy[OF c1[OF side]] by (auto simp: side_matches_def)
    with True have t: "truthy (literal_slug colors (JStr cs))" by (simp add: side_matches_def)
    have rt: "named_color colors (literal_slug colors (JStr cs)) = JStr cs"
      by (rule roundtrip_slug[OF wf sd t cs(2)])
    have "map_of ?m side = Some (literal_slug colors (JStr cs))"
      using side True cs by (simp add: split_fold_snd)
    then show ?thesis
      unfolding hydrate_fold_own[OF dm]
      using rt cs by (simp add: update_conv')
  next
    case False
    then have "map_of ?m side = None"
      by (simp add: split_fold_snd)
    then have "own (JObj ?H) side = own ?st side"
      unfolding hydrate_fold_own[OF dm] st by simp
    then show ?thesis
      using split_side_color_gen[OF vs kd[OF side] side, of colors] False
        str_or_absent_cleaned[OF c1[OF side]]
      by simp
  qed
  then show ?thesis using u h2 by blast
qed

text \<open>
  A side colour keyed \<^verbatim>\<open>__proto__\<close>, which is no side, does not survive the
  round trip. Hydration makes the object with the colour the prototype of the hydrated
  border, which then has a colour and no own property. The edit reads the colour and,
  the first palette entry of that colour having no slug, leaves it to the style, but
  the spread copies own properties only: nothing is stored, and the second hydration
  has no colour.
\<close>

lemma proto_side_color_is_lost:
  "getBorderObject (JObj [(''sideBorderColors'', JObj [(''__proto__'', JStr ''primary'')])])
     (JArr [JObj [(''colors'', JArr [JObj [(''color'', JStr ''#111111'')],
        JObj [(''slug'', JStr ''primary''), (''color'', JStr ''#111111'')]])]])
   = Inr (JProto [(''color'', JStr ''#111111'')] []) \<and>
   own (JProto [(''color'', JStr ''#111111'')] []) ''color'' = JStr ''#111111'' \<and>
   onBorderChange hasSplitBorders JUndefined
     (JArr [JObj [(''colors'', JArr [JObj [(''color'', JStr ''#111111'')],
        JObj [(''slug'', JStr ''primary''), (''color'', JStr ''#111111'')]])]])
     (JProto [(''color'', JStr ''#111111'')] [])
   = Inr (JObj [(''style'', JObj []), (''borderColor'', JUndefined),
                (''sideBorderColors'', JUndefined)]) \<and>
   getBorderObject
     (JObj [(''style'', JObj []), (''borderColor'', JUndefined),
            (''sideBorderColors'', JUndefined)])
     (JArr [JObj [(''colors'', JArr [JObj [(''color'', JStr ''#111111'')],
        JObj [(''slug'', JStr ''primary''), (''color'', JStr ''#111111'')]])]])
   = Inr JUndefined"
  by (simp add: getBorderObject_def hydrate_side_def spread_property_def js_or_def eval_defs)

text \<open>
  C5, as the code has it. A name is resolved by the first entry with that slug and a
  literal by the first entry with that colour, so the round trip keeps the colours when
  the slug determines the colour. For well-formed origins of that kind and valid
  attributes whose side colours have no key \<^verbatim>\<open>__proto__\<close> and whose hydrated
  colours are non-empty strings or absent: hydrating, passing the
  hydrated border to \<^const>\<open>onBorderChange\<close>, taking its update as the attributes and
  hydrating again gives the same flat colour when the border is flat, and the same
  colour on each of the four sides when it is split. \<^verbatim>\<open>cleanEmptyObject\<close> is
  modelled from the spec.
\<close>

theorem hydrate_edit_hydrate_roundtrip:
  assumes wf: "wf_colors colors" and sd: "slug_determines_color colors"
    and va: "valid attributes" and na: "\<not> nullish attributes"
    and np: "props (own attributes ''sideBorderColors'') ''__proto__'' = None"
    and h1: "getBorderObject attributes colors = Inr h1"
    and c1: "str_or_absent (own h1 ''color'')"
      "list_all (\<lambda>side. str_or_absent (own (own h1 side) ''color'')) borderSides"
    and nn: "hsb h1 \<longrightarrow> \<not> nullish h1"
  shows "\<exists>u h2. onBorderChange hsb (own attributes ''style'') colors h1 = Inr u \<and>
           getBorderObject u colors = Inr h2 \<and>
           (\<not> hsb h1 \<longrightarrow> own h2 ''color'' = own h1 ''color'') \<and>
           (hsb h1 \<longrightarrow>
              (\<forall>side\<in>set borderSides. own (own h2 side) ''color'' = own (own h1 side) ''color''))"
proof (cases "hsb h1")
  case True
  have vs: "valid (own attributes ''style'')" by (rule valid_own[OF va])
  have kd: "keys_distinct (own h1 side)" if "side \<in> set borderSides" for side
    by (rule hydrated_keys_distinct(2)[OF wf va na h1 np color_not_side[OF that]])
  have cs: "str_or_absent (own (own h1 side) ''color'')" if "side \<in> set borderSides" for side
    using c1(2) that by (simp add: list_all_iff)
  from roundtrip_split[where hsb=hsb and ?h1.0=h1, OF wf sd vs kd cs True] nn True
  show ?thesis by auto
next
  case False
  have vs: "valid (own attributes ''style'')" by (rule valid_own[OF va])
  have kd: "keys_distinct h1" by (rule hydrated_keys_distinct(1)[OF wf va na h1 np])
  from roundtrip_flat[where hsb=hsb and ?h1.0=h1, OF wf sd vs kd c1(1) False] False
  show ?thesis by auto
qed

text \<open>The theme palette and a flat border named \<^verbatim>\<open>primary\<close> with a stored
  width: the colour is \<^verbatim>\<open>#111111\<close> before and after.\<close>

theorem hydrate_edit_hydrate_roundtrip_witness:
  "getBorderObject
     (JObj [(''borderColor'', JStr ''primary''),
            (''style'', JObj [(''border'', JObj [(''width'', JStr ''2px'')])])]) theme
   = Inr (JObj [(''width'', JStr ''2px''), (''color'', JStr ''#111111'')]) \<and>
   onBorderChange hasSplitBorders (JObj [(''border'', JObj [(''width'', JStr ''2px'')])]) theme
     (JObj [(''width'', JStr ''2px''), (''color'', JStr ''#111111'')])
   = Inr (JObj [(''style'', JObj [(''border'', JObj [(''width'', JStr ''2px'')])]),
                (''borderColor'', JStr ''primary''), (''sideBorderColors'', JUndefined)]) \<and>
   getBorderObject
     (JObj [(''style'', JObj [(''border'', JObj [(''width'', JStr ''2px'')])]),
            (''borderColor'', JStr ''primary''), (''sideBorderColors'', JUndefined)]) theme
   = Inr (JObj [(''width'', JStr ''2px''), (''color'', JStr ''#111111'')])"
proof -
  let ?attributes = "JObj [(''borderColor'', JStr ''primary''),
            (''style'', JObj [(''border'', JObj [(''width'', JStr ''2px'')])])]"
  let ?h1 = "JObj [(''width'', JStr ''2px''), (''color'', JStr ''#111111'')]"
  have sd: "slug_determines_color theme"
    by (simp add: slug_determines_color_def theme_entries)
  have va: "valid ?attributes" by simp
  have na: "\<not> nullish ?attributes" by (simp add: nullish_def)
  have np: "props (own ?attributes ''sideBorderColors'') ''__proto__'' = None"
    by (simp add: props_def)
  have h1: "getBorderObject ?attributes theme = Inr ?h1"
    by (simp add: getBorderObject_def js_or_def eval_defs)
  have c1: "str_or_absent (own ?h1 ''color'')" by simp
  have c2: "list_all (\<lambda>side. str_or_absent (own (own ?h1 side) ''color'')) borderSides"
    by (simp add: borderSides_def)
  have nn: "hasSplitBorders ?h1 \<longrightarrow> \<not> nullish ?h1" by (simp add: nullish_def)
  have e: "onBorderChange hasSplitBorders (JObj [(''border'', JObj [(''width'', JStr ''2px'')])]) theme ?h1
   = Inr (JObj [(''style'', JObj [(''border'', JObj [(''width'', JStr ''2px'')])]),
                (''borderColor'', JStr ''primary''), (''sideBorderColors'', JUndefined)])"
    by (simp add: eval_defs)
  have h2: "getBorderObject
     (JObj [(''style'', JObj [(''border'', JObj [(''width'', JStr ''2px'')])]),
            (''borderColor'', JStr ''primary''), (''sideBorderColors'', JUndefined)]) theme
   = Inr ?h1"
    by (simp add: getBorderObject_def js_or_def eval_defs)
  show ?thesis
    using hydrate_edit_hydrate_roundtrip[where hsb=hasSplitBorders and ?h1.0="?h1"
        and attributes="?attributes", OF theme_wf sd va na np h1 c1 c2 nn] h1 e h2
    by simp
qed

text \<open>
  C5 as stated fails when two origins share a slug. With the palette
  \<^const>\<open>two_blacks\<close> the stored literal \<^verbatim>\<open>#000000\<close> hydrates to itself; the edit
  finds it in the default origin and stores the slug \<^verbatim>\<open>black\<close> in its place; the
  second hydration resolves \<^verbatim>\<open>black\<close> in the theme origin, which comes first, to
  \<^verbatim>\<open>#111111\<close>.
\<close>

theorem hydrate_edit_hydrate_counterexample:
  "getBorderObject (JObj [(''style'', JObj [(''border'', JObj [(''color'', JStr ''#000000'')])])])
     two_blacks
   = Inr (JObj [(''color'', JStr ''#000000'')]) \<and>
   onBorderChange hasSplitBorders (JObj [(''border'', JObj [(''color'', JStr ''#000000'')])])
     two_blacks (JObj [(''color'', JStr ''#000000'')])
   = Inr (JObj [(''style'', JObj []), (''borderColor'', JStr ''black''),
                (''sideBorderColors'', JUndefined)]) \<and>
   getBorderObject
     (JObj [(''style'', JObj []), (''borderColor'', JStr ''black''),
            (''sideBorderColors'', JUndefined)]) two_blacks
   = Inr (JObj [(''color'', JStr ''#111111'')])"
  by (simp add: getBorderObject_def js_or_def two_blacks_def eval_defs)

section \<open>Properties of the class names\<close>

lemma tokens_update_fresh:
  "k \<notin> fst ` set al \<Longrightarrow> tokens (AList.update k v al) = tokens al @ (if truthy v then [k] else [])"
  by (induction al) (auto simp: tokens_def)

lemma tokens_update_falsy:
  "\<not> truthy v \<Longrightarrow> \<forall>v'. (k, v') \<in> set al \<longrightarrow> \<not> truthy v' \<Longrightarrow>
   tokens (AList.update k v al) = tokens al"
  by (induction al) (auto simp: tokens_def)

lemma tokens_update:
  "assignable al (k, v) \<Longrightarrow> tokens (AList.update k v al) = tokens al @ (if truthy v then [k] else [])"
  using tokens_update_fresh[of k al v] tokens_update_falsy[of v k al]
  by (auto simp: assignable_def)

lemma set_update_subset: "set (AList.update k v al) \<subseteq> insert (k, v) (set al)"
  by (induction al) auto

lemma assignable_update:
  assumes "assignable al p" "fst p \<noteq> k"
  shows "assignable (AList.update k v al) p"
proof -
  have "fst ` set (AList.update k v al) = {k} \<union> fst ` set al" by (rule dom_update)
  moreover have "(fst p, v') \<in> set (AList.update k v al) \<Longrightarrow> (fst p, v') \<in> set al" for v'
    using set_update_subset[of k v al] assms(2) by auto
  ultimately show ?thesis using assms by (auto simp: assignable_def)
qed

lemma tokens_assign:
  assumes "distinct (map fst kvs)" "\<forall>p\<in>set kvs. assignable acc p"
    "\<forall>p\<in>set kvs. \<not> array_index (fst p)"
  shows "tokens (assign acc kvs) = tokens acc @ tokens kvs"
  using assms
proof (induction kvs arbitrary: acc)
  case Nil
  then show ?case by (simp add: assign_def tokens_def)
next
  case (Cons p kvs)
  obtain k v where p: "p = (k, v)" by (cases p)
  have "\<not> array_index k" using Cons.prems(3) by (simp add: p)
  then have a: "assign acc (p # kvs) = assign (AList.update k v acc) kvs"
    by (simp add: assign_def p define_property_update)
  have d: "distinct (map fst kvs)" and nk: "\<forall>q\<in>set kvs. fst q \<noteq> k"
    using Cons.prems(1) by (auto simp: p)
  have ni: "\<forall>q\<in>set kvs. \<not> array_index (fst q)" using Cons.prems(3) by simp
  have "\<forall>q\<in>set kvs. assignable (AList.update k v acc) q"
    using Cons.prems(2) nk by (auto intro: assignable_update)
  from Cons.IH[OF d this ni] have "tokens (assign (AList.update k v acc) kvs)
      = tokens (AList.update k v acc) @ tokens kvs" .
  moreover have "tokens (AList.update k v acc) = tokens acc @ (if truthy v then [k] else [])"
    using Cons.prems(2) by (intro tokens_update) (simp add: p)
  ultimately show ?case unfolding a by (simp add: tokens_def p)
qed


lemma side_cases:
  "S \<in> set borderSides \<Longrightarrow> S = ''top'' \<or> S = ''right'' \<or> S = ''bottom'' \<or> S = ''left''"
  by (simp add: borderSides_def)

lemma incompat_sides:
  assumes "S \<in> set borderSides" "S' \<in> set borderSides" "S \<noteq> S'"
    and "suffix (side_suffix S) k" "suffix (side_suffix S') k"
  shows False
proof -
  from suffix_same_cases[OF assms(4,5)]
  have "suffix (side_suffix S) (side_suffix S') \<or> suffix (side_suffix S') (side_suffix S)" .
  then show False
    using side_cases[OF assms(1)] side_cases[OF assms(2)] assms(3)
    by (auto simp: side_suffix_def suffix_to_prefix)
qed

lemma incompat_flat:
  assumes "S \<in> set borderSides" and "suffix ''border-color'' k" "suffix (side_suffix S) k"
  shows False
proof -
  from suffix_same_cases[OF assms(2,3)]
  have "suffix ''border-color'' (side_suffix S) \<or> suffix (side_suffix S) ''border-color''" .
  then show False
    using side_cases[OF assms(1)]
    by (auto simp: side_suffix_def suffix_to_prefix)
qed

lemma undefined_no_suffix:
  assumes "S \<in> set borderSides" shows "\<not> suffix (side_suffix S) ''undefined''"
  using side_cases[OF assms] by (auto simp: side_suffix_def suffix_to_prefix)

lemma side_key_suffix: "suffix (side_suffix S) (''has-'' @ side_suffix S)"
  and side_class_suffix: "suffix (side_suffix S) (''has-'' @ t @ ''-'' @ side_suffix S)"
  by (auto simp: suffix_def)

lemma truthy_js_or: "truthy (js_or a b) = (truthy a \<or> truthy b)"
  by (simp add: js_or_def)

lemma side_tokens_alt:
  "side_tokens attributes S =
     (if truthy (js_or (own (own attributes ''sideBorderColors'') S)
                  (own (own (own (own attributes ''style'') ''border'') S) ''color''))
      then [''has-'' @ side_suffix S] else []) @
     (if truthy (own (own attributes ''sideBorderColors'') S)
      then [''has-'' @ to_string (own (own attributes ''sideBorderColors'') S) @ ''-'' @ side_suffix S]
      else [])"
  by (simp add: side_tokens_def truthy_js_or stored_border_def side_suffix_def Let_def)

lemma side_classes_alt:
  "side_classes sbc style classes S =
     AList.update
       (if truthy (own sbc S) then ''has-'' @ to_string (own sbc S) @ ''-'' @ side_suffix S
        else ''undefined'')
       (JBool (truthy (own sbc S)))
       (AList.update (''has-'' @ side_suffix S)
          (js_or (own sbc S) (own (own (own style ''border'') S) ''color'')) classes)"
  by (simp add: side_classes_def getColorClassName_def side_suffix_def Let_def)

lemma fresh_side_key:
  assumes inv: "side_inv done classes" and dn: "done \<subseteq> set borderSides"
    and S: "S \<in> set borderSides" "S \<notin> done"
    and k: "suffix (side_suffix S) k"
  shows "k \<notin> fst ` set classes"
proof
  assume "k \<in> fst ` set classes"
  then obtain p where p: "p \<in> set classes" "fst p = k" by auto
  with inv consider "k = ''undefined''" | S' where "S' \<in> done" "suffix (side_suffix S') k"
    by (auto simp: side_inv_def)
  then show False
  proof cases
    case 1
    then show ?thesis using k undefined_no_suffix[OF S(1)] by simp
  next
    case 2
    then have "S' \<in> set borderSides" "S \<noteq> S'" using dn S(2) by auto
    then show ?thesis using incompat_sides[OF S(1) _ _ k 2(2)] by blast
  qed
qed

lemma side_classes_step:
  assumes inv: "side_inv done classes" and dn: "done \<subseteq> set borderSides"
    and S: "S \<in> set borderSides" "S \<notin> done"
  shows "tokens (side_classes (own attributes ''sideBorderColors'') (own attributes ''style'') classes S)
           = tokens classes @ side_tokens attributes S"
    and "side_inv (insert S done)
           (side_classes (own attributes ''sideBorderColors'') (own attributes ''style'') classes S)"
proof -
  let ?sbc = "own attributes ''sideBorderColors''"
  let ?style = "own attributes ''style''"
  let ?c = "own ?sbc S"
  let ?hc = "js_or ?c (own (own (own ?style ''border'') S) ''color'')"
  let ?KF = "''has-'' @ side_suffix S"
  let ?KC = "if truthy ?c then ''has-'' @ to_string ?c @ ''-'' @ side_suffix S else ''undefined''"
  let ?c1 = "AList.update ?KF ?hc classes"
  have fKF: "?KF \<notin> fst ` set classes"
    by (rule fresh_side_key[OF inv dn S side_key_suffix])
  have t1: "tokens ?c1 = tokens classes @ (if truthy ?hc then [?KF] else [])"
    by (rule tokens_update_fresh[OF fKF])
  have s1: "set ?c1 \<subseteq> insert (?KF, ?hc) (set classes)" by (rule set_update_subset)
  have a: "assignable ?c1 (?KC, JBool (truthy ?c))"
  proof (cases "truthy ?c")
    case True
    have "''has-'' @ to_string ?c @ ''-'' @ side_suffix S \<notin> fst ` set classes"
      by (rule fresh_side_key[OF inv dn S side_class_suffix])
    moreover have "''has-'' @ to_string ?c @ ''-'' @ side_suffix S \<noteq> ?KF"
      by simp
    ultimately show ?thesis using True by (simp add: assignable_def dom_update)
  next
    case False
    have "\<not> truthy v'" if "(''undefined'', v') \<in> set ?c1" for v'
    proof -
      from that s1 have "(''undefined'', v') \<in> set classes" by auto
      with inv have "\<not> truthy v' \<or> (\<exists>S'\<in>done. suffix (side_suffix S') ''undefined'')"
        unfolding side_inv_def by force
      then show ?thesis using undefined_no_suffix dn by blast
    qed
    then show ?thesis using False by (simp add: assignable_def)
  qed
  have t2: "tokens (AList.update ?KC (JBool (truthy ?c)) ?c1)
      = tokens ?c1 @ (if truthy ?c then [?KC] else [])"
    using tokens_update[OF a] by simp
  show "tokens (side_classes ?sbc ?style classes S) = tokens classes @ side_tokens attributes S"
    unfolding side_classes_alt side_tokens_alt t2 t1 by simp
  have "set (AList.update ?KC (JBool (truthy ?c)) ?c1)
      \<subseteq> insert (?KC, JBool (truthy ?c)) (insert (?KF, ?hc) (set classes))"
    using set_update_subset[of ?KC "JBool (truthy ?c)" ?c1] s1 by blast
  moreover have "side_inv (insert S done) classes"
    using inv by (auto simp: side_inv_def)
  ultimately show "side_inv (insert S done) (side_classes ?sbc ?style classes S)"
    unfolding side_classes_alt
    using side_key_suffix[of S] side_class_suffix[of S "to_string ?c"]
    by (auto simp: side_inv_def)
qed

lemma side_classes_fold:
  assumes "side_inv done classes" "done \<subseteq> set borderSides"
    and "distinct sides" "set sides \<subseteq> set borderSides" "set sides \<inter> done = {}"
  shows "tokens (foldl (side_classes (own attributes ''sideBorderColors'') (own attributes ''style''))
                  classes sides)
           = tokens classes @ concat (map (side_tokens attributes) sides) \<and>
         side_inv (done \<union> set sides)
           (foldl (side_classes (own attributes ''sideBorderColors'') (own attributes ''style''))
              classes sides)"
  using assms
proof (induction sides arbitrary: classes "done")
  case Nil
  then show ?case by simp
next
  case (Cons S sides)
  let ?c1 = "side_classes (own attributes ''sideBorderColors'') (own attributes ''style'') classes S"
  have S: "S \<in> set borderSides" "S \<notin> done" using Cons.prems by auto
  note st = side_classes_step[OF Cons.prems(1,2) S, of attributes]
  have "tokens (foldl (side_classes (own attributes ''sideBorderColors'') (own attributes ''style''))
                  ?c1 sides)
           = tokens ?c1 @ concat (map (side_tokens attributes) sides) \<and>
         side_inv (insert S done \<union> set sides)
           (foldl (side_classes (own attributes ''sideBorderColors'') (own attributes ''style''))
              ?c1 sides)"
    using Cons.prems S by (intro Cons.IH[OF st(2)]) auto
  then show ?case using st(1) by simp
qed

lemma side_classes_distinct:
  "distinct (map fst classes) \<Longrightarrow> distinct (map fst (foldl (side_classes sbc style) classes sides))"
  by (induction sides arbitrary: classes) (auto simp: side_classes_alt distinct_update)

text \<open>
  C9. \<^verbatim>\<open>getColorClassName\<close> is modelled from the spec and \<^verbatim>\<open>classnames\<close>
  from its package. For attributes that are not \<^verbatim>\<open>undefined\<close> or \<^verbatim>\<open>null\<close>
  the class name is the tokens of \<^const>\<open>expected_classes\<close> joined by single spaces:
  first \<^verbatim>\<open>has-border-color\<close> and \<^verbatim>\<open>has-{slug}-border-color\<close>, then for the
  sides top, right, bottom and left in this order \<^verbatim>\<open>has-border-{side}-color\<close> and
  \<^verbatim>\<open>has-{slug}-border-{side}-color\<close>. Wherever a named slug is active for a
  facet both of its tokens are there; the fixed token is also there for a facet that
  has a literal colour only, and no other token is ever there.
\<close>

theorem border_classes_tokens:
  assumes "\<not> nullish attributes"
  shows "getBorderClasses attributes = Inr (expected_classes attributes)"
proof -
  let ?sbc = "own attributes ''sideBorderColors''"
  let ?style = "own attributes ''style''"
  let ?bc = "own attributes ''borderColor''"
  define side where "side = foldl (side_classes ?sbc ?style) [] borderSides"
  define K2 where
    "K2 = (if truthy ?bc then ''has-'' @ to_string ?bc @ ''-border-color'' else ''undefined'')"
  define flat where
    "flat = AList.update K2 (JBool (truthy ?bc))
              [(''has-border-color'', js_or ?bc (own (own ?style ''border'') ''color''))]"
  have g: "getBorderClasses attributes = Inr (classnames (assign flat side))"
    using assms
    by (simp add: getBorderClasses_def getSideBorderClasses_def get_def bind_r_def
          getColorClassName_def Let_def flat_def K2_def side_def)
  have inv0: "side_inv {} []" by (simp add: side_inv_def)
  from side_classes_fold[OF inv0, of borderSides attributes]
  have ts: "tokens side = concat (map (side_tokens attributes) borderSides)"
    and inv: "side_inv (set borderSides) side"
    by (simp_all add: distinct_borderSides tokens_def side_def)
  have ds: "distinct (map fst side)" unfolding side_def by (intro side_classes_distinct) simp
  have K2h: "K2 \<noteq> ''has-border-color''" by (simp add: K2_def)
  have fl: "flat = [(''has-border-color'', js_or ?bc (own (own ?style ''border'') ''color'')),
                    (K2, JBool (truthy ?bc))]"
    using K2h by (simp add: flat_def)
  have tf: "tokens flat = flat_tokens attributes"
    unfolding fl
    by (simp add: tokens_def flat_tokens_def truthy_js_or stored_border_def Let_def K2_def)
  have sK1: "suffix ''border-color'' ''has-border-color''"
    by (simp add: suffix_to_prefix)
  have sK2: "suffix ''border-color'' K2" if "truthy ?bc"
    using that by (auto simp: suffix_def K2_def)
  have uK2: "K2 = ''undefined''" if "\<not> truthy ?bc"
    using that by (simp add: K2_def)
  have "assignable flat p" if p: "p \<in> set side" for p
  proof -
    from inv p consider (u) "fst p = ''undefined''" "\<not> truthy (snd p)"
      | (s) S where "S \<in> set borderSides" "suffix (side_suffix S) (fst p)"
      unfolding side_inv_def by blast
    then show ?thesis
    proof cases
      case u
      have "\<not> truthy v'" if "(''undefined'', v') \<in> set flat" for v'
      proof (cases "truthy ?bc")
        case True
        then have "K2 \<noteq> ''undefined''" by (simp add: K2_def)
        with that show ?thesis unfolding fl by simp
      next
        case False
        with that show ?thesis unfolding fl by auto
      qed
      then show ?thesis using u unfolding assignable_def by simp
    next
      case s
      have 1: "fst p \<noteq> ''has-border-color''"
        using incompat_flat[OF s(1) _ s(2)] sK1 by auto
      have 2: "fst p \<noteq> K2"
      proof (cases "truthy ?bc")
        case True
        then show ?thesis using incompat_flat[OF s(1) _ s(2)] sK2 by auto
      next
        case False
        then show ?thesis using undefined_no_suffix[OF s(1)] s(2) uK2 by auto
      qed
      have "fst p \<notin> fst ` set flat" unfolding fl using 1 2 by simp
      then show ?thesis unfolding assignable_def by blast
    qed
  qed
  moreover have "\<not> array_index (fst p)" if p: "p \<in> set side" for p
  proof -
    from inv p consider (u) "fst p = ''undefined''"
      | (s) S where "suffix (side_suffix S) (fst p)"
      unfolding side_inv_def by blast
    then have "CHR ''d'' \<in> set (fst p)"
      by cases (auto simp: suffix_def side_suffix_def)
    then show ?thesis by (rule not_index) (simp add: is_digit_def)
  qed
  ultimately have "tokens (assign flat side) = tokens flat @ tokens side"
    by (intro tokens_assign ds) blast+
  then have "classnames (assign flat side) = expected_classes attributes"
    unfolding ts tf by (simp add: classnames_def expected_classes_def tokens_def)
  then show ?thesis using g by simp
qed

text \<open>A flat border named \<^verbatim>\<open>primary\<close>, a top side named \<^verbatim>\<open>accent\<close> and a
  left side with a literal colour.\<close>

theorem border_classes_tokens_witness:
  "getBorderClasses
     (JObj [(''borderColor'', JStr ''primary''),
            (''sideBorderColors'', JObj [(''top'', JStr ''accent'')]),
            (''style'', JObj [(''border'', JObj [(''left'', JObj [(''color'', JStr ''#123456'')])])])])
   = Inr (''has-border-color has-primary-border-color '' @
          ''has-border-top-color has-accent-border-top-color has-border-left-color'')"
proof -
  let ?attributes = "JObj [(''borderColor'', JStr ''primary''),
            (''sideBorderColors'', JObj [(''top'', JStr ''accent'')]),
            (''style'', JObj [(''border'', JObj [(''left'', JObj [(''color'', JStr ''#123456'')])])])]"
  have n: "\<not> nullish ?attributes" by (simp add: nullish_def)
  have "expected_classes ?attributes
    = ''has-border-color has-primary-border-color '' @
      ''has-border-top-color has-accent-border-top-color has-border-left-color''"
    by (simp add: expected_classes_def flat_tokens_def side_tokens_def stored_border_def
          borderSides_def)
  then show ?thesis using border_classes_tokens[OF n] by simp
qed

end
